theory Spec2Isabelle
  imports Complex_Main
begin

section \<open>Data model of the boat scene (src/src/main.ts)\<close>

text \<open>
  The simulation keeps its state in module-level variables and computes with JavaScript
  numbers. The embedding threads that state through a record and reads every number as a
  real: arithmetic is exact, there is no NaN and no rounding. \<open>Infinity\<close>, which the
  proximity scan uses as the initial nearest distance, is the value \<open>None\<close> of an option.
  Rendering data (meshes, materials, colours, sway targets) is left out; the fields the
  per-frame functions read or write are kept.

  The variant of the scene without wake particles (src/unnamed/part_000) has the same
  updateBoat and updateProximityUI and the same registry; its only constant that differs is
  the size of the water plane. The functions that read that constant take it as their first
  argument \<open>ws\<close>.
\<close>

record Vector3 =
  vx :: real
  vy :: real
  vz :: real

record Biome =
  biome_id :: string
  name :: string
  description :: string

record Island =
  island_id :: string
  biome :: Biome
  radius :: real
  position :: Vector3

record WakeSlot =
  mesh_position :: Vector3
  mesh_visible :: bool
  mesh_scale :: real
  mesh_opacity :: real
  age :: real
  alive :: bool

record World =
  keys :: "string set"
  boatSpeed :: real
  boatHeading :: real
  modalOpen :: bool
  boat_position :: Vector3
  boat_rotation_y :: real
  wakePool :: "WakeSlot list"
  wakeTimer :: real
  activeIsland :: "Island option"
  speechEls :: bool
  speech_display :: string
  speech_title :: string
  speech_body :: string

subsection \<open>Constants\<close>

text \<open>
  \<open>waterSize\<close> is the constant of src/src/main.ts, \<open>waterSizeVariant\<close> the same constant in
  src/unnamed/part_000; the other constants are the same in both files.
\<close>

definition waterSize :: real where "waterSize = 240"
definition waterSizeVariant :: real where "waterSizeVariant = 140"

definition maxSpeed :: real where "maxSpeed = 12"

definition acceleration :: real where "acceleration = 12"

definition turnRate :: real where "turnRate = 1.8"

definition damping :: real where "damping = 0.96"

definition boatRadius :: real where "boatRadius = 1.6"

definition wakeLife :: real where "wakeLife = 1.8"

definition tropical :: Biome where
  "tropical = \<lparr>biome_id = ''tropical'', name = ''Tropical Cay'',
     description = ''Warm sands, turquoise shallows, and palms swaying in a steady trade wind.''\<rparr>"

definition arctic :: Biome where
  "arctic = \<lparr>biome_id = ''arctic'', name = ''Arctic Shelf'',
     description = ''Frosted rock with snow caps and glassy blue water drifting with ice.''\<rparr>"

definition desert :: Biome where
  "desert = \<lparr>biome_id = ''desert'', name = ''Dune Key'',
     description = ''Sun-bleached dunes and rocky outcrops with crisp blue edges.''\<rparr>"

text \<open>The four \<open>createIsland\<close> calls, and the registry they build in call order.\<close>

definition tropical_0 :: Island where
  "tropical_0 = \<lparr>island_id = ''tropical-0'', biome = tropical, radius = 7.5,
     position = \<lparr>vx = - 24, vy = 0, vz = - 6\<rparr>\<rparr>"

definition desert_1 :: Island where
  "desert_1 = \<lparr>island_id = ''desert-1'', biome = desert, radius = 6.5,
     position = \<lparr>vx = 18, vy = 0, vz = 10\<rparr>\<rparr>"

definition arctic_2 :: Island where
  "arctic_2 = \<lparr>island_id = ''arctic-2'', biome = arctic, radius = 6,
     position = \<lparr>vx = - 6, vy = 0, vz = 24\<rparr>\<rparr>"

definition tropical_3 :: Island where
  "tropical_3 = \<lparr>island_id = ''tropical-3'', biome = tropical, radius = 8,
     position = \<lparr>vx = 20, vy = 0, vz = - 20\<rparr>\<rparr>"

definition islands :: "Island list" where
  "islands = [tropical_0, desert_1, arctic_2, tropical_3]"

subsection \<open>Library functions the code calls\<close>

text \<open>
  \<open>Math.hypot\<close>, \<open>THREE.MathUtils.clamp\<close> (\<open>Math.max(min, Math.min(max, value))\<close>) and the
  \<open>THREE.Vector3\<close> methods. \<open>normalize\<close> divides by \<open>length() || 1\<close>, so the zero vector
  stays the zero vector; \<open>divideScalar\<close> multiplies by the reciprocal.
\<close>

definition hypot :: "real \<Rightarrow> real \<Rightarrow> real" where
  "hypot a b = sqrt (a * a + b * b)"

definition clamp :: "real \<Rightarrow> real \<Rightarrow> real \<Rightarrow> real" where
  "clamp v lo hi = max lo (min hi v)"

definition vlength :: "Vector3 \<Rightarrow> real" where
  "vlength v = sqrt (vx v * vx v + vy v * vy v + vz v * vz v)"

definition multiplyScalar :: "Vector3 \<Rightarrow> real \<Rightarrow> Vector3" where
  "multiplyScalar v s = \<lparr>vx = vx v * s, vy = vy v * s, vz = vz v * s\<rparr>"

definition divideScalar :: "Vector3 \<Rightarrow> real \<Rightarrow> Vector3" where
  "divideScalar v s = multiplyScalar v (1 / s)"

definition normalize :: "Vector3 \<Rightarrow> Vector3" where
  "normalize v = divideScalar v (if vlength v = 0 then 1 else vlength v)"

definition addScaledVector :: "Vector3 \<Rightarrow> Vector3 \<Rightarrow> real \<Rightarrow> Vector3" where
  "addScaledVector v d s = \<lparr>vx = vx v + vx d * s, vy = vy v + vy d * s, vz = vz v + vz d * s\<rparr>"

section \<open>Boat controller: updateBoat\<close>

definition forwardAxis :: "string set \<Rightarrow> real" where
  "forwardAxis ks =
     (if ''w'' \<in> ks \<or> ''arrowup'' \<in> ks then 1 else 0) -
     (if ''s'' \<in> ks \<or> ''arrowdown'' \<in> ks then 1 else 0)"

definition turnAxis :: "string set \<Rightarrow> real" where
  "turnAxis ks =
     (if ''a'' \<in> ks \<or> ''arrowleft'' \<in> ks then 1 else 0) -
     (if ''d'' \<in> ks \<or> ''arrowright'' \<in> ks then 1 else 0)"

text \<open>The speed after the accelerate / damp branch.\<close>

definition throttle :: "real \<Rightarrow> string set \<Rightarrow> real \<Rightarrow> real" where
  "throttle delta ks speed =
     (let forward = forwardAxis ks; boosting = (''shift'' \<in> ks) in
      if forward \<noteq> 0 then
        clamp (speed + forward * acceleration * delta * (if boosting then 1.4 else 1))
              (- maxSpeed * 0.5) (maxSpeed * (if boosting then 1.4 else 1))
      else
        (let s = speed * damping in if \<bar>s\<bar> < 0.05 then 0 else s))"

text \<open>The heading after the turn branch; it reads the speed the throttle left.\<close>

definition steer :: "real \<Rightarrow> string set \<Rightarrow> real \<Rightarrow> real \<Rightarrow> real" where
  "steer delta ks speed heading =
     (let turn = turnAxis ks in
      if turn \<noteq> 0 then heading + turn * turnRate * delta * (1 + \<bar>speed\<bar> * 0.05)
      else heading)"

definition tentative :: "real \<Rightarrow> Vector3 \<Rightarrow> real \<Rightarrow> real \<Rightarrow> Vector3" where
  "tentative delta pos heading speed =
     addScaledVector pos \<lparr>vx = sin heading, vy = 0, vz = cos heading\<rparr> (speed * delta)"

text \<open>
  One iteration of the collision loop, on the pair of the two variables it writes:
  \<open>nextPos\<close> and \<open>boatSpeed\<close>. Over the reals a hit that is not on the centre leaves the
  position exactly on the exclusion circle; the program's binary64 \<open>hypot\<close>, \<open>normalize\<close>
  and \<open>addScaledVector\<close> can leave it a few units in the last place inside.
\<close>

definition collide :: "Vector3 \<times> real \<Rightarrow> Island \<Rightarrow> Vector3 \<times> real" where
  "collide st island =
     (let nextPos = fst st;
          dx = vx nextPos - vx (position island);
          dz = vz nextPos - vz (position island);
          dist = hypot dx dz;
          minDist = radius island + boatRadius
      in if dist < minDist then
           (let n = normalize \<lparr>vx = dx, vy = 0, vz = dz\<rparr>
            in (addScaledVector (position island) n minDist, 0))
         else st)"

definition resolveCollisions :: "Island list \<Rightarrow> Vector3 \<times> real \<Rightarrow> Vector3 \<times> real" where
  "resolveCollisions isls st = foldl collide st isls"

definition clampBounds :: "real \<Rightarrow> Vector3 \<Rightarrow> Vector3" where
  "clampBounds ws p =
     (let bounds = ws * 0.45 in
      p\<lparr>vx := clamp (vx p) (- bounds) bounds, vz := clamp (vz p) (- bounds) bounds\<rparr>)"

text \<open>
  \<open>updateBoat delta\<close>; \<open>ws\<close> is the constant \<open>waterSize\<close> of the file, \<open>elapsed\<close> is what
  \<open>clock.getElapsedTime()\<close> returns for the bobbing and \<open>isls\<close> is the island registry.
\<close>

definition updateBoat :: "real \<Rightarrow> real \<Rightarrow> real \<Rightarrow> Island list \<Rightarrow> World \<Rightarrow> World" where
  "updateBoat ws delta elapsed isls w =
     (if modalOpen w then w\<lparr>boatSpeed := boatSpeed w * 0.9\<rparr>
      else
        (let speed1 = throttle delta (keys w) (boatSpeed w);
             heading1 = steer delta (keys w) speed1 (boatHeading w);
             nextPos = tentative delta (boat_position w) heading1 speed1;
             st = resolveCollisions isls (nextPos, speed1);
             nextPos2 = clampBounds ws (fst st)
         in w\<lparr>boatSpeed := snd st,
               boatHeading := heading1,
               boat_position := nextPos2\<lparr>vy := 0.35 + sin (elapsed * 2) * 0.08\<rparr>,
               boat_rotation_y := heading1 + pi\<rparr>))"

text \<open>
  Successive frames as far as the boat is concerned: \<open>animate\<close> calls updateBoat once per
  frame with that frame's delta and elapsed time. Keys and the modal flag change only in
  event handlers, so they stay as they are over such a run.
\<close>

fun runBoat :: "real \<Rightarrow> Island list \<Rightarrow> (real \<times> real) list \<Rightarrow> World \<Rightarrow> World" where
  "runBoat ws isls [] w = w"
| "runBoat ws isls ((delta, elapsed) # frames) w =
     runBoat ws isls frames (updateBoat ws delta elapsed isls w)"

section \<open>Wake particles: updateWake\<close>

text \<open>\<open>wakePool.find((p) => !p.alive)\<close> followed by the writes to the slot found.\<close>

fun emit :: "Vector3 \<Rightarrow> real \<Rightarrow> WakeSlot list \<Rightarrow> WakeSlot list" where
  "emit pos heading [] = []"
| "emit pos heading (p # ps) =
     (if \<not> alive p then
        p\<lparr>mesh_position :=
             (addScaledVector pos \<lparr>vx = sin heading, vy = 0, vz = cos heading\<rparr> (- 1.2))
               \<lparr>vy := 0.02\<rparr>,
           mesh_visible := True, mesh_scale := 0.6, age := 0, alive := True\<rparr> # ps
      else p # emit pos heading ps)"

text \<open>The body of the \<open>forEach\<close> over the pool.\<close>

definition ageSlot :: "real \<Rightarrow> WakeSlot \<Rightarrow> WakeSlot" where
  "ageSlot delta p =
     (if \<not> alive p then p
      else
        (let a = age p + delta; t = a / wakeLife in
         if t \<ge> 1 then p\<lparr>age := a, mesh_visible := False, alive := False\<rparr>
         else p\<lparr>age := a, mesh_opacity := 0.45 * (1 - t), mesh_scale := 0.6 + t * 1.4\<rparr>))"

text \<open>The pool between the emission block and the ageing pass.\<close>

definition afterEmit :: "real \<Rightarrow> World \<Rightarrow> WakeSlot list" where
  "afterEmit delta w =
     (if boatSpeed w > 1 \<and> wakeTimer w + delta > 0.08
      then emit (boat_position w) (boatHeading w) (wakePool w)
      else wakePool w)"

definition updateWake :: "real \<Rightarrow> World \<Rightarrow> World" where
  "updateWake delta w =
     (let timer1 = wakeTimer w + delta;
          timer2 = (if boatSpeed w > 1 \<and> timer1 > 0.08 then 0 else timer1)
      in w\<lparr>wakePool := map (ageSlot delta) (afterEmit delta w), wakeTimer := timer2\<rparr>)"

section \<open>Proximity: updateProximityUI\<close>

definition showSpeech :: "Island option \<Rightarrow> World \<Rightarrow> World" where
  "showSpeech island w =
     (if \<not> speechEls w then w
      else case island of
        None \<Rightarrow> w\<lparr>speech_display := ''none''\<rparr>
      | Some i \<Rightarrow> w\<lparr>speech_title := name (biome i),
                     speech_body := ''Press E or click Dock to visit.'',
                     speech_display := ''flex''\<rparr>)"

definition islandDist :: "Vector3 \<Rightarrow> Island \<Rightarrow> real" where
  "islandDist bp island = hypot (vx bp - vx (position island)) (vz bp - vz (position island))"

text \<open>
  One iteration of the scan on the pair (\<open>nearest\<close>, \<open>nearestDist\<close>); \<open>None\<close> is the
  initial (\<open>null\<close>, \<open>Infinity\<close>), below which every distance lies.
\<close>

definition scanStep :: "Vector3 \<Rightarrow> (Island \<times> real) option \<Rightarrow> Island \<Rightarrow> (Island \<times> real) option" where
  "scanStep bp acc island =
     (let d = islandDist bp island in
      case acc of
        None \<Rightarrow> Some (island, d)
      | Some (n, nd) \<Rightarrow> if d < nd then Some (island, d) else acc)"

definition nearestIsland :: "Vector3 \<Rightarrow> Island list \<Rightarrow> (Island \<times> real) option" where
  "nearestIsland bp isls = foldl (scanStep bp) None isls"

definition updateProximityUI :: "Island list \<Rightarrow> World \<Rightarrow> World" where
  "updateProximityUI isls w =
     (case nearestIsland (boat_position w) isls of
        None \<Rightarrow> showSpeech None (w\<lparr>activeIsland := None\<rparr>)
      | Some (nearest, nearestDist) \<Rightarrow>
          (let reachDistance = radius nearest + 4 in
           if nearestDist < reachDistance
           then showSpeech (Some nearest) (w\<lparr>activeIsland := Some nearest\<rparr>)
           else showSpeech None (w\<lparr>activeIsland := None\<rparr>)))"

section \<open>Start-up state\<close>

text \<open>
  \<open>initWake\<close> fills the pool with \<open>wakeCount = 80\<close> hidden, dead slots; a fresh mesh sits at
  the origin with scale 1 and carries a clone of the wake material (opacity 0.5).
\<close>

definition wakeCount :: nat where "wakeCount = 80"

definition initWake :: "WakeSlot list" where
  "initWake = replicate wakeCount
     \<lparr>mesh_position = \<lparr>vx = 0, vy = 0, vz = 0\<rparr>, mesh_visible = False, mesh_scale = 1,
      mesh_opacity = 0.5, age = 0, alive = False\<rparr>"

text \<open>
  The module-level variables after start-up. The speech panel belongs to the page, which the
  script only looks up; here it is present and hidden.
\<close>

definition initialWorld :: World where
  "initialWorld =
     \<lparr>keys = {}, boatSpeed = 0, boatHeading = pi, modalOpen = False,
      boat_position = \<lparr>vx = 0, vy = 0.35, vz = 0\<rparr>, boat_rotation_y = pi,
      wakePool = initWake, wakeTimer = 0, activeIsland = None,
      speechEls = True, speech_display = ''none'', speech_title = [], speech_body = []\<rparr>"

section \<open>Notions used to state the collision property\<close>

text \<open>
  \<open>nextPosOf\<close> is the local \<open>nextPos\<close> of updateBoat before the collision loop. An
  island's exclusion circle has radius \<open>radius + boatRadius\<close> around its centre: \<open>clearOf\<close> says
  a point is not strictly inside it, \<open>apart\<close> that two circles do not overlap, and
  \<open>insideBounds\<close> that a circle lies within the world square of water size \<open>ws\<close>.
\<close>

definition nextPosOf :: "real \<Rightarrow> World \<Rightarrow> Vector3" where
  "nextPosOf delta w =
     (let speed1 = throttle delta (keys w) (boatSpeed w);
          heading1 = steer delta (keys w) speed1 (boatHeading w)
      in tentative delta (boat_position w) heading1 speed1)"

definition clearOf :: "Vector3 \<Rightarrow> Island \<Rightarrow> bool" where
  "clearOf p a = (radius a + boatRadius \<le> islandDist p a)"

definition apart :: "Island \<Rightarrow> Island \<Rightarrow> bool" where
  "apart a b = ((radius a + boatRadius) + (radius b + boatRadius) \<le> islandDist (position a) b)"

definition insideBounds :: "real \<Rightarrow> Island \<Rightarrow> bool" where
  "insideBounds ws a =
     (\<bar>vx (position a)\<bar> + (radius a + boatRadius) \<le> ws * 0.45 \<and>
      \<bar>vz (position a)\<bar> + (radius a + boatRadius) \<le> ws * 0.45)"

section \<open>Example inputs\<close>

text \<open>
  Worlds and registries on which the theorems below are run: a boat under way with the
  forward key held, two islands whose exclusion circles overlap, and an island whose centre
  lies on the edge of the world square.
\<close>

definition twin_0 :: Island where
  "twin_0 = \<lparr>island_id = ''tropical-0'', biome = tropical, radius = 3.4,
     position = \<lparr>vx = 0, vy = 0, vz = 0\<rparr>\<rparr>"

definition twin_1 :: Island where
  "twin_1 = \<lparr>island_id = ''desert-1'', biome = desert, radius = 3.4,
     position = \<lparr>vx = 6, vy = 0, vz = 0\<rparr>\<rparr>"

definition edge_0 :: Island where
  "edge_0 = \<lparr>island_id = ''arctic-0'', biome = arctic, radius = 3.4,
     position = \<lparr>vx = 108, vy = 0, vz = 0\<rparr>\<rparr>"

definition cruising :: "real \<Rightarrow> real \<Rightarrow> real \<Rightarrow> World" where
  "cruising heading x z =
     initialWorld\<lparr>keys := {''w''}, boatSpeed := 12, boatHeading := heading,
       boat_position := \<lparr>vx = x, vy = 0.35, vz = z\<rparr>\<rparr>"

section \<open>Distances\<close>

lemmas isl = tropical_0_def desert_1_def arctic_2_def tropical_3_def

lemma hypot_nonneg: "0 \<le> hypot a b"
  by (simp add: hypot_def)

lemma hypot_less_iff: "(hypot a b < m) = (0 < m \<and> a * a + b * b < m * m)"
proof (cases "0 < m")
  case True
  then have "m = sqrt (m * m)" by simp
  then have "(hypot a b < m) = (sqrt (a * a + b * b) < sqrt (m * m))"
    by (simp add: hypot_def)
  then show ?thesis using True by (simp only: real_sqrt_less_iff) simp
next
  case False
  then show ?thesis using hypot_nonneg [of a b] by auto
qed

lemma hypot_ge_iff: "(m \<le> hypot a b) = (m \<le> 0 \<or> m * m \<le> a * a + b * b)"
  using hypot_less_iff [of a b m] by auto

lemma hypot_zero_iff: "(hypot a b = 0) = (a = 0 \<and> b = 0)"
  by (simp add: hypot_def real_sqrt_eq_zero_cancel_iff add_nonneg_eq_0_iff)

lemma hypot_triangle: "hypot (a + c) (b + d) \<le> hypot a b + hypot c d"
  using real_sqrt_sum_squares_triangle_ineq [of a c b d]
  by (simp add: hypot_def power2_eq_square)

lemma hypot_minus: "hypot (- a) (- b) = hypot a b"
  by (simp add: hypot_def)

lemma hypot_scale: "hypot (a * k) (b * k) = hypot a b * \<bar>k\<bar>"
proof -
  have "(a * k) * (a * k) + (b * k) * (b * k) = (a * a + b * b) * (k * k)"
    by (simp add: algebra_simps)
  then show ?thesis
    by (simp add: hypot_def real_sqrt_mult)
qed

lemma abs_le_hypot1: "\<bar>a\<bar> \<le> hypot a b"
proof -
  have "sqrt (a * a) \<le> sqrt (a * a + b * b)" by (rule real_sqrt_le_mono) simp
  then show ?thesis by (simp add: hypot_def)
qed

lemma abs_le_hypot2: "\<bar>b\<bar> \<le> hypot a b"
proof -
  have "sqrt (b * b) \<le> sqrt (a * a + b * b)" by (rule real_sqrt_le_mono) simp
  then show ?thesis by (simp add: hypot_def)
qed

lemma hypot_swap: "hypot (a - b) (c - d) = hypot (b - a) (d - c)"
  using hypot_minus [of "a - b" "c - d"] by simp

lemma islandDist_triangle:
  "islandDist (position a) b \<le> islandDist q a + islandDist q b"
proof -
  have "hypot ((vx (position a) - vx q) + (vx q - vx (position b)))
              ((vz (position a) - vz q) + (vz q - vz (position b)))
        \<le> hypot (vx (position a) - vx q) (vz (position a) - vz q) +
           hypot (vx q - vx (position b)) (vz q - vz (position b))"
    by (rule hypot_triangle)
  moreover have "hypot (vx (position a) - vx q) (vz (position a) - vz q) = islandDist q a"
    unfolding islandDist_def by (rule hypot_swap)
  ultimately show ?thesis by (simp add: islandDist_def)
qed

lemma hypot_le_iff: "(hypot a b \<le> hypot c d) = (a * a + b * b \<le> c * c + d * d)"
  by (simp add: hypot_def)

lemma hypot_axis: "hypot a 0 = \<bar>a\<bar>" "hypot 0 b = \<bar>b\<bar>"
  by (simp_all add: hypot_def)

lemma hit_iff:
  "(islandDist p a < radius a + boatRadius) =
     (0 < radius a + boatRadius \<and>
      (vx p - vx (position a)) * (vx p - vx (position a)) +
      (vz p - vz (position a)) * (vz p - vz (position a))
        < (radius a + boatRadius) * (radius a + boatRadius))"
  by (simp add: islandDist_def hypot_less_iff)

section \<open>The collision loop\<close>

text \<open>The position a hit leaves, by components.\<close>

lemma collide_miss: "\<not> islandDist p a < radius a + boatRadius \<Longrightarrow> collide (p, s) a = (p, s)"
  by (simp add: collide_def islandDist_def Let_def)

lemma collide_hit:
  assumes "islandDist p a < radius a + boatRadius"
  shows "snd (collide (p, s) a) = 0"
    and "islandDist p a \<noteq> 0 \<Longrightarrow> vx (fst (collide (p, s) a)) =
      vx (position a) + (vx p - vx (position a)) / islandDist p a * (radius a + boatRadius)"
    and "islandDist p a \<noteq> 0 \<Longrightarrow> vz (fst (collide (p, s) a)) =
      vz (position a) + (vz p - vz (position a)) / islandDist p a * (radius a + boatRadius)"
    and "islandDist p a = 0 \<Longrightarrow> vx (fst (collide (p, s) a)) = vx (position a)"
    and "islandDist p a = 0 \<Longrightarrow> vz (fst (collide (p, s) a)) = vz (position a)"
  using assms
  by (simp_all add: collide_def islandDist_def Let_def normalize_def divideScalar_def
      multiplyScalar_def addScaledVector_def vlength_def hypot_def
      add_nonneg_eq_0_iff)

lemma collide_speed: "snd (collide st i) = snd st \<or> snd (collide st i) = 0"
  by (simp add: collide_def Let_def)

lemma resolve_speed: "snd (resolveCollisions isls st) = snd st \<or> snd (resolveCollisions isls st) = 0"
  unfolding resolveCollisions_def
proof (induction isls rule: rev_induct)
  case Nil
  then show ?case by simp
next
  case (snoc x xs)
  then show ?case using collide_speed [of "foldl collide st xs" x] by auto
qed

lemma resolve_clearPath:
  "\<forall>a\<in>set isls. \<not> islandDist p a < radius a + boatRadius \<Longrightarrow> foldl collide (p, s) isls = (p, s)"
  by (induction isls) (simp_all add: collide_miss)

lemma resolve_zero: "snd st = 0 \<Longrightarrow> snd (foldl collide st isls) = 0"
proof (induction isls arbitrary: st)
  case Nil
  then show ?case by simp
next
  case (Cons x xs)
  have "snd (collide st x) = 0" using collide_speed [of st x] Cons.prems by auto
  then show ?case using Cons.IH by simp
qed

lemma resolve_hit_speed:
  "\<exists>a\<in>set isls. islandDist p a < radius a + boatRadius \<Longrightarrow> snd (foldl collide (p, s) isls) = 0"
proof (induction isls)
  case Nil
  then show ?case by simp
next
  case (Cons x xs)
  show ?case
  proof (cases "islandDist p x < radius x + boatRadius")
    case True
    then have "snd (collide (p, s) x) = 0" by (rule collide_hit(1))
    then have "snd (foldl collide (collide (p, s) x) xs) = 0" by (rule resolve_zero)
    then show ?thesis by simp
  next
    case False
    then have "collide (p, s) x = (p, s)" by (rule collide_miss)
    moreover have "\<exists>a\<in>set xs. islandDist p a < radius a + boatRadius"
      using Cons.prems False by simp
    ultimately show ?thesis using Cons.IH by simp
  qed
qed

lemma updateBoat_open:
  assumes "\<not> modalOpen w"
  shows "boatSpeed (updateBoat ws delta elapsed isls w) =
           snd (foldl collide (nextPosOf delta w, throttle delta (keys w) (boatSpeed w)) isls)"
    and "vx (boat_position (updateBoat ws delta elapsed isls w)) =
           vx (clampBounds ws (fst (foldl collide (nextPosOf delta w, throttle delta (keys w) (boatSpeed w)) isls)))"
    and "vz (boat_position (updateBoat ws delta elapsed isls w)) =
           vz (clampBounds ws (fst (foldl collide (nextPosOf delta w, throttle delta (keys w) (boatSpeed w)) isls)))"
  using assms
  by (simp_all add: updateBoat_def nextPosOf_def resolveCollisions_def Let_def clampBounds_def)

lemma cruising_nextPos:
  "0 \<le> delta \<Longrightarrow> nextPosOf delta (cruising heading x z) =
     \<lparr>vx = x + sin heading * (12 * delta), vy = 0.35, vz = z + cos heading * (12 * delta)\<rparr>"
  "0 \<le> delta \<Longrightarrow> throttle delta (keys (cruising heading x z)) (boatSpeed (cruising heading x z)) = 12"
  "\<not> modalOpen (cruising heading x z)"
  by (simp_all add: nextPosOf_def cruising_def initialWorld_def throttle_def forwardAxis_def
      steer_def turnAxis_def tentative_def addScaledVector_def clamp_def maxSpeed_def
      acceleration_def Let_def)

section \<open>World bounds\<close>

lemma clamp_range: "lo \<le> hi \<Longrightarrow> lo \<le> clamp v lo hi \<and> clamp v lo hi \<le> hi"
  by (simp add: clamp_def)

lemma clamp_fixed: "lo \<le> v \<Longrightarrow> v \<le> hi \<Longrightarrow> clamp v lo hi = v"
  by (simp add: clamp_def)

text \<open>
  C8. The bounds clamp puts x and z inside [-ws * 0.45, ws * 0.45] for the water size ws of
  the file (240, or any ws \<ge> 0), and clamping a clamped position changes nothing. With the
  modal closed it is the last thing updateBoat does to x and z: the committed x and z are
  those of the clamped post-collision position, they lie in the square, and clamping the
  committed position again returns it.
\<close>

theorem clampBounds_square_idem:
  assumes "0 \<le> ws"
  shows "- (ws * 0.45) \<le> vx (clampBounds ws p) \<and> vx (clampBounds ws p) \<le> ws * 0.45 \<and>
   - (ws * 0.45) \<le> vz (clampBounds ws p) \<and> vz (clampBounds ws p) \<le> ws * 0.45 \<and>
   clampBounds ws (clampBounds ws p) = clampBounds ws p \<and>
   (\<not> modalOpen w \<longrightarrow>
      vx (boat_position (updateBoat ws delta elapsed isls w)) =
        vx (clampBounds ws (fst (resolveCollisions isls
              (nextPosOf delta w, throttle delta (keys w) (boatSpeed w))))) \<and>
      vz (boat_position (updateBoat ws delta elapsed isls w)) =
        vz (clampBounds ws (fst (resolveCollisions isls
              (nextPosOf delta w, throttle delta (keys w) (boatSpeed w))))) \<and>
      - (ws * 0.45) \<le> vx (boat_position (updateBoat ws delta elapsed isls w)) \<and>
      vx (boat_position (updateBoat ws delta elapsed isls w)) \<le> ws * 0.45 \<and>
      - (ws * 0.45) \<le> vz (boat_position (updateBoat ws delta elapsed isls w)) \<and>
      vz (boat_position (updateBoat ws delta elapsed isls w)) \<le> ws * 0.45 \<and>
      clampBounds ws (boat_position (updateBoat ws delta elapsed isls w)) =
        boat_position (updateBoat ws delta elapsed isls w))"
proof -
  define b where "b = ws * 0.45"
  have b: "- b \<le> b" using assms by (simp add: b_def)
  have cb: "clampBounds ws q = q\<lparr>vx := clamp (vx q) (- b) b, vz := clamp (vz q) (- b) b\<rparr>" for q
    by (simp add: clampBounds_def b_def Let_def)
  have "- b \<le> vx (clampBounds ws q) \<and> vx (clampBounds ws q) \<le> b \<and>
      - b \<le> vz (clampBounds ws q) \<and> vz (clampBounds ws q) \<le> b" for q
    using clamp_range [OF b, of "vx q"] clamp_range [OF b, of "vz q"] by (simp add: cb)
  then have range: "- (ws * 0.45) \<le> vx (clampBounds ws q) \<and> vx (clampBounds ws q) \<le> ws * 0.45 \<and>
      - (ws * 0.45) \<le> vz (clampBounds ws q) \<and> vz (clampBounds ws q) \<le> ws * 0.45" for q
    unfolding b_def .
  have "clamp (clamp v (- b) b) (- b) b = clamp v (- b) b" for v
    using clamp_range [OF b, of v] by (simp add: clamp_fixed)
  then have idem: "clampBounds ws (clampBounds ws q) = clampBounds ws q" for q
    by (simp add: cb)
  have "vx (boat_position (updateBoat ws delta elapsed isls w)) =
        vx (clampBounds ws (fst (resolveCollisions isls
              (nextPosOf delta w, throttle delta (keys w) (boatSpeed w))))) \<and>
      vz (boat_position (updateBoat ws delta elapsed isls w)) =
        vz (clampBounds ws (fst (resolveCollisions isls
              (nextPosOf delta w, throttle delta (keys w) (boatSpeed w))))) \<and>
      clampBounds ws (boat_position (updateBoat ws delta elapsed isls w)) =
        boat_position (updateBoat ws delta elapsed isls w)"
    if "\<not> modalOpen w"
  proof -
    define q where "q = fst (resolveCollisions isls
        (nextPosOf delta w, throttle delta (keys w) (boatSpeed w)))"
    have c: "boat_position (updateBoat ws delta elapsed isls w) =
        (clampBounds ws q)\<lparr>vy := 0.35 + sin (elapsed * 2) * 0.08\<rparr>"
      using that by (simp add: updateBoat_def nextPosOf_def q_def Let_def)
    have "clampBounds ws ((clampBounds ws q)\<lparr>vy := y\<rparr>) = (clampBounds ws (clampBounds ws q))\<lparr>vy := y\<rparr>"
      for y by (simp add: clampBounds_def Let_def)
    then show ?thesis unfolding q_def [symmetric] c by (simp add: idem)
  qed
  with range idem show ?thesis by metis
qed

theorem clampBounds_square_idem_witness:
  "vx (boat_position (updateBoat waterSize 1 0 islands (cruising (pi / 2) 102 0))) = 108 \<and>
   vz (boat_position (updateBoat waterSize 1 0 islands (cruising (pi / 2) 102 0))) = 0 \<and>
   clampBounds waterSize (boat_position (updateBoat waterSize 1 0 islands (cruising (pi / 2) 102 0))) =
     boat_position (updateBoat waterSize 1 0 islands (cruising (pi / 2) 102 0)) \<and>
   vx (boat_position (updateBoat waterSizeVariant 1 0 islands (cruising (pi / 2) 52 0))) = 63"
proof -
  have ws: "0 \<le> waterSize" "0 \<le> waterSizeVariant"
    by (simp_all add: waterSize_def waterSizeVariant_def)
  have p: "nextPosOf 1 (cruising (pi / 2) 102 0) = \<lparr>vx = 114, vy = 0.35, vz = 0\<rparr>"
    "nextPosOf 1 (cruising (pi / 2) 52 0) = \<lparr>vx = 64, vy = 0.35, vz = 0\<rparr>"
    by (simp_all add: cruising_nextPos)
  have s: "throttle 1 (keys (cruising (pi / 2) 102 0)) (boatSpeed (cruising (pi / 2) 102 0)) = 12"
    "throttle 1 (keys (cruising (pi / 2) 52 0)) (boatSpeed (cruising (pi / 2) 52 0)) = 12"
    by (simp_all add: cruising_nextPos)
  have "\<forall>a\<in>set islands. \<not> islandDist \<lparr>vx = 114, vy = 0.35, vz = 0\<rparr> a < radius a + boatRadius"
    unfolding hit_iff by (simp add: islands_def isl boatRadius_def)
  then have r: "resolveCollisions islands (\<lparr>vx = 114, vy = 0.35, vz = 0\<rparr>, 12) =
      (\<lparr>vx = 114, vy = 0.35, vz = 0\<rparr>, 12)"
    unfolding resolveCollisions_def by (rule resolve_clearPath)
  have "\<forall>a\<in>set islands. \<not> islandDist \<lparr>vx = 64, vy = 0.35, vz = 0\<rparr> a < radius a + boatRadius"
    unfolding hit_iff by (simp add: islands_def isl boatRadius_def)
  then have r': "resolveCollisions islands (\<lparr>vx = 64, vy = 0.35, vz = 0\<rparr>, 12) =
      (\<lparr>vx = 64, vy = 0.35, vz = 0\<rparr>, 12)"
    unfolding resolveCollisions_def by (rule resolve_clearPath)
  note t = clampBounds_square_idem [OF ws(1), where w = "cruising (pi / 2) 102 0" and delta = 1
      and elapsed = 0 and isls = islands, unfolded p s r]
  note t' = clampBounds_square_idem [OF ws(2), where w = "cruising (pi / 2) 52 0" and delta = 1
      and elapsed = 0 and isls = islands, unfolded p s r']
  show ?thesis
    using t t'
    by (simp add: cruising_nextPos(3) clampBounds_def clamp_def waterSize_def
        waterSizeVariant_def Let_def)
qed

section \<open>Speed of the boat\<close>

lemma runBoat_modal:
  "modalOpen w \<Longrightarrow> runBoat ws isls frames w = w\<lparr>boatSpeed := boatSpeed w * 0.9 ^ length frames\<rparr>"
proof (induction frames arbitrary: w)
  case Nil
  then show ?case by simp
next
  case (Cons f frames)
  obtain delta elapsed where f: "f = (delta, elapsed)" by (cases f)
  have "modalOpen (updateBoat ws delta elapsed isls w)"
    using Cons.prems by (simp add: updateBoat_def)
  from Cons.IH [OF this] show ?case
    using Cons.prems by (simp add: f updateBoat_def)
qed

lemma throttle_bounds:
  assumes "- maxSpeed * 0.5 \<le> s" and "s \<le> maxSpeed * 1.4"
  shows "- maxSpeed * 0.5 \<le> throttle delta ks s \<and> throttle delta ks s \<le> maxSpeed * 1.4"
proof (cases "forwardAxis ks = 0")
  case True
  with assms show ?thesis
    by (simp add: throttle_def Let_def maxSpeed_def damping_def)
next
  case False
  define hi where "hi = maxSpeed * (if ''shift'' \<in> ks then 1.4 else 1)"
  define v where "v = s + forwardAxis ks * acceleration * delta * (if ''shift'' \<in> ks then 1.4 else 1)"
  have t: "throttle delta ks s = clamp v (- maxSpeed * 0.5) hi"
    using False by (simp add: throttle_def Let_def hi_def v_def)
  have "- maxSpeed * 0.5 \<le> hi" and "hi \<le> maxSpeed * 1.4"
    by (simp_all add: hi_def maxSpeed_def)
  then show ?thesis
    using clamp_range [of "- maxSpeed * 0.5" hi v] t by linarith
qed

text \<open>
  C2. For every delta \<ge> 0, every key state and either value of the modal flag: a speed in
  [-maxSpeed * 0.5, maxSpeed * 1.4] before updateBoat is in that interval after it. The
  accelerate branch clamps, the damping branches shrink the speed, a collision sets it to 0.
\<close>

theorem updateBoat_speed_bounds:
  assumes "0 \<le> delta" and "- maxSpeed * 0.5 \<le> boatSpeed w" and "boatSpeed w \<le> maxSpeed * 1.4"
  shows "- maxSpeed * 0.5 \<le> boatSpeed (updateBoat ws delta elapsed isls w) \<and>
         boatSpeed (updateBoat ws delta elapsed isls w) \<le> maxSpeed * 1.4"
proof (cases "modalOpen w")
  case True
  with assms show ?thesis by (simp add: updateBoat_def maxSpeed_def)
next
  case False
  let ?s1 = "throttle delta (keys w) (boatSpeed w)"
  let ?p = "tentative delta (boat_position w) (steer delta (keys w) ?s1 (boatHeading w)) ?s1"
  have b: "- maxSpeed * 0.5 \<le> ?s1 \<and> ?s1 \<le> maxSpeed * 1.4"
    using assms throttle_bounds by blast
  have "snd (resolveCollisions isls (?p, ?s1)) = ?s1 \<or> snd (resolveCollisions isls (?p, ?s1)) = 0"
    using resolve_speed [of isls "(?p, ?s1)"] by simp
  moreover have "boatSpeed (updateBoat ws delta elapsed isls w) = snd (resolveCollisions isls (?p, ?s1))"
    using False by (simp add: updateBoat_def Let_def)
  ultimately show ?thesis using b by (auto simp add: maxSpeed_def)
qed

theorem updateBoat_speed_bounds_witness:
  "- maxSpeed * 0.5 \<le> boatSpeed (updateBoat waterSize (1 / 60) 0 islands (initialWorld\<lparr>keys := {''w'', ''shift''}, boatSpeed := 16\<rparr>)) \<and>
   boatSpeed (updateBoat waterSize (1 / 60) 0 islands (initialWorld\<lparr>keys := {''w'', ''shift''}, boatSpeed := 16\<rparr>)) \<le> maxSpeed * 1.4"
  using updateBoat_speed_bounds [where delta = "1 / 60" and ws = waterSize and elapsed = 0
      and isls = islands and w = "initialWorld\<lparr>keys := {''w'', ''shift''}, boatSpeed := 16\<rparr>"]
  by (simp add: maxSpeed_def)

lemma updateBoat_keys [simp]: "keys (updateBoat ws delta elapsed isls w) = keys w"
  by (simp add: updateBoat_def Let_def)

lemma updateBoat_modalOpen [simp]: "modalOpen (updateBoat ws delta elapsed isls w) = modalOpen w"
  by (simp add: updateBoat_def Let_def)

lemma no_input_speed:
  assumes "\<not> modalOpen w" and "forwardAxis (keys w) = 0"
  shows "boatSpeed (updateBoat ws delta elapsed isls w) =
           (if \<bar>boatSpeed w * damping\<bar> < 0.05 then 0 else boatSpeed w * damping) \<or>
         boatSpeed (updateBoat ws delta elapsed isls w) = 0"
proof -
  let ?s1 = "throttle delta (keys w) (boatSpeed w)"
  let ?p = "tentative delta (boat_position w) (steer delta (keys w) ?s1 (boatHeading w)) ?s1"
  have "?s1 = (if \<bar>boatSpeed w * damping\<bar> < 0.05 then 0 else boatSpeed w * damping)"
    using assms(2) by (simp add: throttle_def Let_def)
  moreover have "boatSpeed (updateBoat ws delta elapsed isls w) = snd (resolveCollisions isls (?p, ?s1))"
    using assms(1) by (simp add: updateBoat_def Let_def)
  ultimately show ?thesis
    using resolve_speed [of isls "(?p, ?s1)"] by auto
qed

lemma no_input_zero:
  assumes "\<not> modalOpen w" and "forwardAxis (keys w) = 0" and "boatSpeed w = 0"
  shows "boatSpeed (updateBoat ws delta elapsed isls w) = 0"
  using no_input_speed [OF assms(1,2), of ws delta elapsed isls] assms(3) by auto

lemma no_input_zero_run:
  assumes "\<not> modalOpen w" and "forwardAxis (keys w) = 0" and "boatSpeed w = 0"
  shows "boatSpeed (runBoat ws isls frames w) = 0"
  using assms
proof (induction frames arbitrary: w)
  case Nil
  then show ?case by simp
next
  case (Cons f frames)
  obtain delta elapsed where f: "f = (delta, elapsed)" by (cases f)
  let ?w = "updateBoat ws delta elapsed isls w"
  have "\<not> modalOpen ?w" "forwardAxis (keys ?w) = 0" "boatSpeed ?w = 0"
    using Cons.prems no_input_zero [of w ws delta elapsed isls] by simp_all
  then have "boatSpeed (runBoat ws isls frames ?w) = 0" by (rule Cons.IH)
  then show ?case by (simp add: f)
qed

text \<open>
  C3. With the modal closed and neither a forward nor a backward key held, updateBoat
  multiplies the speed by the damping factor 0.96 and snaps it to 0 when the product is below
  0.05 in absolute value: that is the new speed whenever the tentative position is strictly
  inside no island's exclusion circle, and the new speed is 0 when it is inside one. A nonzero
  speed strictly shrinks in absolute value, and a speed of 0 stays 0 over any run of such
  frames.
\<close>

theorem updateBoat_no_input_decay:
  assumes "\<not> modalOpen w"
    and "''w'' \<notin> keys w" and "''arrowup'' \<notin> keys w"
    and "''s'' \<notin> keys w" and "''arrowdown'' \<notin> keys w"
  shows "damping = 0.96 \<and>
    boatSpeed (updateBoat ws delta elapsed isls w) =
      (if \<exists>a\<in>set isls. islandDist (nextPosOf delta w) a < radius a + boatRadius then 0
       else if \<bar>boatSpeed w * damping\<bar> < 0.05 then 0 else boatSpeed w * damping) \<and>
    (boatSpeed (updateBoat ws delta elapsed isls w) =
       (if \<bar>boatSpeed w * damping\<bar> < 0.05 then 0 else boatSpeed w * damping) \<or>
     boatSpeed (updateBoat ws delta elapsed isls w) = 0) \<and>
    (\<bar>boatSpeed w * damping\<bar> < 0.05 \<longrightarrow> boatSpeed (updateBoat ws delta elapsed isls w) = 0) \<and>
    (boatSpeed w \<noteq> 0 \<longrightarrow> \<bar>boatSpeed (updateBoat ws delta elapsed isls w)\<bar> < \<bar>boatSpeed w\<bar>) \<and>
    (boatSpeed w = 0 \<longrightarrow> boatSpeed (runBoat ws isls frames w) = 0)"
proof -
  have f: "forwardAxis (keys w) = 0"
    using assms by (simp add: forwardAxis_def)
  note d = no_input_speed [OF assms(1) f, of ws delta elapsed isls]
  have t: "throttle delta (keys w) (boatSpeed w) =
      (if \<bar>boatSpeed w * damping\<bar> < 0.05 then 0 else boatSpeed w * damping)"
    using f by (simp add: throttle_def Let_def)
  have e: "boatSpeed (updateBoat ws delta elapsed isls w) =
      (if \<exists>a\<in>set isls. islandDist (nextPosOf delta w) a < radius a + boatRadius then 0
       else if \<bar>boatSpeed w * damping\<bar> < 0.05 then 0 else boatSpeed w * damping)"
  proof (cases "\<exists>a\<in>set isls. islandDist (nextPosOf delta w) a < radius a + boatRadius")
    case True
    then show ?thesis
      using resolve_hit_speed [OF True, of "throttle delta (keys w) (boatSpeed w)"]
      by (simp add: updateBoat_open(1) [OF assms(1)])
  next
    case False
    then have "\<forall>a\<in>set isls. \<not> islandDist (nextPosOf delta w) a < radius a + boatRadius"
      by simp
    from resolve_clearPath [OF this, of "throttle delta (keys w) (boatSpeed w)"] False
    show ?thesis by (simp add: updateBoat_open(1) [OF assms(1)] t)
  qed
  have "\<bar>boatSpeed w * damping\<bar> < 0.05 \<longrightarrow> boatSpeed (updateBoat ws delta elapsed isls w) = 0"
    using d by auto
  moreover have "boatSpeed w \<noteq> 0 \<longrightarrow> \<bar>boatSpeed (updateBoat ws delta elapsed isls w)\<bar> < \<bar>boatSpeed w\<bar>"
    using d by (auto simp add: damping_def abs_mult split: if_splits)
  moreover have "boatSpeed w = 0 \<longrightarrow> boatSpeed (runBoat ws isls frames w) = 0"
    using no_input_zero_run [OF assms(1) f] by simp
  ultimately show ?thesis using d e by (simp add: damping_def)
qed

theorem updateBoat_no_input_decay_witness:
  "boatSpeed (updateBoat waterSize (1 / 60) 0 islands (initialWorld\<lparr>boatSpeed := 0.05\<rparr>)) = 0 \<and>
   boatSpeed (updateBoat waterSize (1 / 60) 0 islands (initialWorld\<lparr>boatSpeed := 10\<rparr>)) = 9.6 \<and>
   \<bar>boatSpeed (updateBoat waterSize (1 / 60) 0 islands (initialWorld\<lparr>boatSpeed := 10\<rparr>))\<bar> < 10 \<and>
   boatSpeed (runBoat waterSize islands [(1 / 60, 0), (1 / 30, 1 / 60)] initialWorld) = 0"
proof -
  have p: "nextPosOf (1 / 60) (initialWorld\<lparr>boatSpeed := 10\<rparr>) = \<lparr>vx = 0, vy = 0.35, vz = - 0.16\<rparr>"
    by (simp add: nextPosOf_def initialWorld_def throttle_def forwardAxis_def steer_def
        turnAxis_def tentative_def addScaledVector_def damping_def Let_def)
  have n: "\<not> (\<exists>a\<in>set islands.
      islandDist (nextPosOf (1 / 60) (initialWorld\<lparr>boatSpeed := 10\<rparr>)) a < radius a + boatRadius)"
    unfolding p hit_iff by (simp add: islands_def isl boatRadius_def)
  note t1 = updateBoat_no_input_decay [where w = "initialWorld\<lparr>boatSpeed := 0.05\<rparr>"
      and ws = waterSize and delta = "1 / 60" and elapsed = 0 and isls = islands and frames = "[]"]
  note t2 = updateBoat_no_input_decay [where w = "initialWorld\<lparr>boatSpeed := 10\<rparr>"
      and ws = waterSize and delta = "1 / 60" and elapsed = 0 and isls = islands and frames = "[]"]
  note t3 = updateBoat_no_input_decay [where w = initialWorld
      and ws = waterSize and delta = 0 and elapsed = 0 and isls = islands
      and frames = "[(1 / 60, 0), (1 / 30, 1 / 60)]"]
  have "boatSpeed (updateBoat waterSize (1 / 60) 0 islands (initialWorld\<lparr>boatSpeed := 0.05\<rparr>)) = 0"
    using t1 by (simp add: initialWorld_def damping_def)
  moreover have "boatSpeed (updateBoat waterSize (1 / 60) 0 islands (initialWorld\<lparr>boatSpeed := 10\<rparr>)) = 9.6"
    using t2 n by (simp add: initialWorld_def damping_def)
  moreover have "boatSpeed (runBoat waterSize islands [(1 / 60, 0), (1 / 30, 1 / 60)] initialWorld) = 0"
    using t3 by (simp add: initialWorld_def)
  ultimately show ?thesis by simp
qed

text \<open>
  C6. With the modal open, updateBoat multiplies the speed by 0.9 and changes nothing else:
  heading and horizontal position are as before, whatever delta and the state are, and
  neither the collision loop nor the bounds clamp takes part.
\<close>

theorem updateBoat_modal_frame:
  assumes "modalOpen w"
  shows "updateBoat ws delta elapsed isls w = w\<lparr>boatSpeed := boatSpeed w * 0.9\<rparr> \<and>
         boatHeading (updateBoat ws delta elapsed isls w) = boatHeading w \<and>
         vx (boat_position (updateBoat ws delta elapsed isls w)) = vx (boat_position w) \<and>
         vz (boat_position (updateBoat ws delta elapsed isls w)) = vz (boat_position w)"
  using assms by (simp add: updateBoat_def)

theorem updateBoat_modal_frame_witness:
  "updateBoat waterSize (1 / 60) 0 islands (initialWorld\<lparr>modalOpen := True, boatSpeed := 10\<rparr>) =
     initialWorld\<lparr>modalOpen := True, boatSpeed := 9\<rparr>"
  using updateBoat_modal_frame [where w = "initialWorld\<lparr>modalOpen := True, boatSpeed := 10\<rparr>"
      and ws = waterSize and delta = "1 / 60" and elapsed = 0 and isls = islands]
  by simp

text \<open>
  C10. The modal branch has no snap to zero: a nonzero speed becomes speed * 0.9, which is
  nonzero, and after any run of n modal frames it is speed * 0.9 ^ n, still nonzero.
\<close>

theorem updateBoat_modal_never_zero:
  assumes "modalOpen w" and "boatSpeed w \<noteq> 0"
  shows "boatSpeed (updateBoat ws delta elapsed isls w) = boatSpeed w * 0.9 \<and>
         boatSpeed (updateBoat ws delta elapsed isls w) \<noteq> 0 \<and>
         boatSpeed (runBoat ws isls frames w) = boatSpeed w * 0.9 ^ length frames \<and>
         boatSpeed (runBoat ws isls frames w) \<noteq> 0"
  using assms by (simp add: runBoat_modal) (simp add: updateBoat_def)

theorem updateBoat_modal_never_zero_witness:
  "boatSpeed (runBoat waterSize islands [(1 / 60, 0), (1 / 30, 1 / 60)]
     (initialWorld\<lparr>modalOpen := True, boatSpeed := 1\<rparr>)) = 0.81 \<and>
   boatSpeed (runBoat waterSize islands [(1 / 60, 0), (1 / 30, 1 / 60)]
     (initialWorld\<lparr>modalOpen := True, boatSpeed := 1\<rparr>)) \<noteq> 0"
  using updateBoat_modal_never_zero [where w = "initialWorld\<lparr>modalOpen := True, boatSpeed := 1\<rparr>"
      and ws = waterSize and delta = "1 / 60" and elapsed = 0 and isls = islands
      and frames = "[(1 / 60, 0), (1 / 30, 1 / 60)]"]
  by (simp add: power2_eq_square)

section \<open>Wake particles\<close>

lemma emit_length [simp]: "length (emit pos h ps) = length ps"
  by (induction ps) simp_all

lemma emit_alive_nth: "i < length ps \<Longrightarrow> alive (ps ! i) \<Longrightarrow> emit pos h ps ! i = ps ! i"
proof (induction ps arbitrary: i)
  case Nil
  then show ?case by simp
next
  case (Cons p ps)
  then show ?case by (cases i) auto
qed

lemma emit_full: "\<forall>p\<in>set ps. alive p \<Longrightarrow> emit pos h ps = ps"
  by (induction ps) simp_all

lemma afterEmit_length [simp]: "length (afterEmit delta w) = length (wakePool w)"
  by (simp add: afterEmit_def)

lemma afterEmit_alive_nth:
  "i < length (wakePool w) \<Longrightarrow> alive (wakePool w ! i) \<Longrightarrow> afterEmit delta w ! i = wakePool w ! i"
  by (simp add: afterEmit_def emit_alive_nth)

lemma updateWake_nth:
  "i < length (wakePool w) \<Longrightarrow> wakePool (updateWake delta w) ! i = ageSlot delta (afterEmit delta w ! i)"
  by (simp add: updateWake_def Let_def)

lemma ageSlot_alive:
  assumes "alive p" and "t = (age p + delta) / wakeLife" and "t < 1"
  shows "alive (ageSlot delta p) \<and>
         mesh_opacity (ageSlot delta p) = 0.45 + (0 - 0.45) * t \<and>
         mesh_scale (ageSlot delta p) = 0.6 + (2.0 - 0.6) * t"
proof -
  have "ageSlot delta p =
      p\<lparr>age := age p + delta, mesh_opacity := 0.45 * (1 - t), mesh_scale := 0.6 + t * 1.4\<rparr>"
    using assms by (simp add: ageSlot_def Let_def)
  then show ?thesis
    using assms(1) by (simp add: field_simps)
qed

lemma ageSlot_expired:
  assumes "alive p" and "(age p + delta) / wakeLife \<ge> 1"
  shows "\<not> alive (ageSlot delta p) \<and> \<not> mesh_visible (ageSlot delta p)"
  using assms by (simp add: ageSlot_def Let_def)

lemma ageSlot_dead: "\<not> alive p \<Longrightarrow> ageSlot delta p = p"
  by (simp add: ageSlot_def)

lemma ageSlot_age: "alive p \<Longrightarrow> age (ageSlot delta p) = age p + delta"
  by (simp add: ageSlot_def Let_def)

text \<open>
  C5. Take a slot that is alive when the ageing pass reaches it (a slot alive at the call is
  such a slot, unchanged by the emission block). updateWake adds delta to its age; let
  t = age / wakeLife for the age it is left with. If t < 1, the slot stays alive with opacity
  0.45 + (0 - 0.45) * t and scale 0.6 + (2.0 - 0.6) * t, the straight lines that reach 0 and
  2.0 at t = 1; between two such slots the one with the larger t gets the strictly smaller
  opacity and the strictly larger scale. If t \<ge> 1 the slot is hidden and marked dead, and
  the ageing pass leaves a dead slot as it is, so it is freed once.
\<close>

theorem updateWake_decay_law:
  assumes "i < length (wakePool w)" and "alive (afterEmit delta w ! i)"
  shows "(alive (wakePool w ! i) \<longrightarrow> afterEmit delta w ! i = wakePool w ! i) \<and>
         age (wakePool (updateWake delta w) ! i) = age (afterEmit delta w ! i) + delta \<and>
         ((age (afterEmit delta w ! i) + delta) / wakeLife < 1 \<longrightarrow>
            alive (wakePool (updateWake delta w) ! i) \<and>
            mesh_opacity (wakePool (updateWake delta w) ! i) =
              0.45 + (0 - 0.45) * ((age (afterEmit delta w ! i) + delta) / wakeLife) \<and>
            mesh_scale (wakePool (updateWake delta w) ! i) =
              0.6 + (2.0 - 0.6) * ((age (afterEmit delta w ! i) + delta) / wakeLife)) \<and>
         (\<forall>j < length (wakePool w). alive (afterEmit delta w ! j) \<and>
            (age (afterEmit delta w ! i) + delta) / wakeLife
              < (age (afterEmit delta w ! j) + delta) / wakeLife \<and>
            (age (afterEmit delta w ! j) + delta) / wakeLife < 1 \<longrightarrow>
            mesh_opacity (wakePool (updateWake delta w) ! j) <
              mesh_opacity (wakePool (updateWake delta w) ! i) \<and>
            mesh_scale (wakePool (updateWake delta w) ! i) <
              mesh_scale (wakePool (updateWake delta w) ! j)) \<and>
         ((age (afterEmit delta w ! i) + delta) / wakeLife \<ge> 1 \<longrightarrow>
            \<not> alive (wakePool (updateWake delta w) ! i) \<and>
            \<not> mesh_visible (wakePool (updateWake delta w) ! i) \<and>
            ageSlot delta2 (wakePool (updateWake delta w) ! i) = wakePool (updateWake delta w) ! i)"
proof -
  define ti where "ti = (age (afterEmit delta w ! i) + delta) / wakeLife"
  have a: "wakePool (updateWake delta w) ! i = ageSlot delta (afterEmit delta w ! i)"
    using assms(1) by (rule updateWake_nth)
  have same: "afterEmit delta w ! i = wakePool w ! i" if "alive (wakePool w ! i)"
    using assms(1) that by (rule afterEmit_alive_nth)
  have law: "alive (wakePool (updateWake delta w) ! i) \<and>
      mesh_opacity (wakePool (updateWake delta w) ! i) = 0.45 + (0 - 0.45) * ti \<and>
      mesh_scale (wakePool (updateWake delta w) ! i) = 0.6 + (2.0 - 0.6) * ti"
    if "ti < 1"
    unfolding a using assms(2) ti_def that by (rule ageSlot_alive)
  have mono: "mesh_opacity (wakePool (updateWake delta w) ! j) <
        mesh_opacity (wakePool (updateWake delta w) ! i) \<and>
      mesh_scale (wakePool (updateWake delta w) ! i) <
        mesh_scale (wakePool (updateWake delta w) ! j)"
    if j: "j < length (wakePool w)" "alive (afterEmit delta w ! j)"
      and lt: "ti < (age (afterEmit delta w ! j) + delta) / wakeLife"
        "(age (afterEmit delta w ! j) + delta) / wakeLife < 1" for j
  proof -
    define tj where "tj = (age (afterEmit delta w ! j) + delta) / wakeLife"
    have "ti < 1" using lt by linarith
    note li = law [OF this]
    have lj: "mesh_opacity (wakePool (updateWake delta w) ! j) = 0.45 + (0 - 0.45) * tj \<and>
      mesh_scale (wakePool (updateWake delta w) ! j) = 0.6 + (2.0 - 0.6) * tj"
      unfolding updateWake_nth [OF j(1)]
      using ageSlot_alive [OF j(2) tj_def] lt(2) tj_def by simp
    have "ti < tj" using lt(1) tj_def by simp
    then show ?thesis using li lj by simp
  qed
  have free: "\<not> alive (wakePool (updateWake delta w) ! i) \<and>
      \<not> mesh_visible (wakePool (updateWake delta w) ! i) \<and>
      ageSlot delta2 (wakePool (updateWake delta w) ! i) = wakePool (updateWake delta w) ! i"
    if "ti \<ge> 1"
    using ageSlot_expired [OF assms(2), of delta] that by (simp add: a ageSlot_dead ti_def)
  have aged: "age (wakePool (updateWake delta w) ! i) = age (afterEmit delta w ! i) + delta"
    unfolding a using assms(2) by (rule ageSlot_age)
  from same aged law mono free show ?thesis unfolding ti_def by blast
qed

theorem updateWake_decay_law_witness:
  "age (wakePool (updateWake 0.9
      (initialWorld\<lparr>wakePool := [\<lparr>mesh_position = \<lparr>vx = 0, vy = 0.02, vz = 0\<rparr>, mesh_visible = True,
          mesh_scale = 0.6, mesh_opacity = 0.5, age = 0, alive = True\<rparr>]\<rparr>)) ! 0) = 0.9 \<and>
   mesh_opacity (wakePool (updateWake 0.9
      (initialWorld\<lparr>wakePool := [\<lparr>mesh_position = \<lparr>vx = 0, vy = 0.02, vz = 0\<rparr>, mesh_visible = True,
          mesh_scale = 0.6, mesh_opacity = 0.5, age = 0, alive = True\<rparr>]\<rparr>)) ! 0) = 0.225 \<and>
   mesh_scale (wakePool (updateWake 0.9
      (initialWorld\<lparr>wakePool := [\<lparr>mesh_position = \<lparr>vx = 0, vy = 0.02, vz = 0\<rparr>, mesh_visible = True,
          mesh_scale = 0.6, mesh_opacity = 0.5, age = 0, alive = True\<rparr>]\<rparr>)) ! 0) = 1.3 \<and>
   \<not> alive (wakePool (updateWake 0.9 (updateWake 0.9
      (initialWorld\<lparr>wakePool := [\<lparr>mesh_position = \<lparr>vx = 0, vy = 0.02, vz = 0\<rparr>, mesh_visible = True,
          mesh_scale = 0.6, mesh_opacity = 0.5, age = 0, alive = True\<rparr>]\<rparr>))) ! 0)"
proof -
  define w0 where "w0 = initialWorld\<lparr>wakePool := [\<lparr>mesh_position = \<lparr>vx = 0, vy = 0.02, vz = 0\<rparr>,
      mesh_visible = True, mesh_scale = 0.6, mesh_opacity = 0.5, age = 0, alive = True\<rparr>]\<rparr>"
  define w1 where "w1 = updateWake 0.9 w0"
  have e0: "afterEmit 0.9 w0 = wakePool w0" "length (wakePool w0) = 1"
    "alive (wakePool w0 ! 0)" "age (wakePool w0 ! 0) = 0"
    by (simp_all add: afterEmit_def w0_def initialWorld_def)
  note t0 = updateWake_decay_law [where i = 0 and w = w0 and delta = "0.9" and ?delta2.0 = 0]
  have first: "alive (wakePool w1 ! 0)" "age (wakePool w1 ! 0) = 0.9"
    "mesh_opacity (wakePool w1 ! 0) = 0.225" "mesh_scale (wakePool w1 ! 0) = 1.3"
    using t0 by (simp_all add: e0 w1_def wakeLife_def)
  have e1: "afterEmit 0.9 w1 = wakePool w1" "length (wakePool w1) = 1"
    by (simp_all add: afterEmit_def w1_def updateWake_def w0_def initialWorld_def Let_def)
  note t1 = updateWake_decay_law [where i = 0 and w = w1 and delta = "0.9" and ?delta2.0 = 0]
  have "\<not> alive (wakePool (updateWake 0.9 w1) ! 0)"
    using t1 first(1,2) by (simp add: e1 wakeLife_def)
  with first show ?thesis unfolding w1_def w0_def by simp
qed

text \<open>
  C9. When the boat speed exceeds 1 and the accumulated timer exceeds 0.08, updateWake
  resets the timer to 0, also when every slot is alive; then the pool is only aged, no slot
  is claimed, and the next tick starts counting from 0 again (a next delta of at most 0.08
  emits nothing).
\<close>

theorem updateWake_timer_reset:
  assumes "boatSpeed w > 1" and "wakeTimer w + delta > 0.08"
  shows "wakeTimer (updateWake delta w) = 0 \<and>
         ((\<forall>p \<in> set (wakePool w). alive p) \<longrightarrow>
            wakePool (updateWake delta w) = map (ageSlot delta) (wakePool w)) \<and>
         (delta2 \<le> 0.08 \<longrightarrow>
            wakePool (updateWake delta2 (updateWake delta w)) =
              map (ageSlot delta2) (wakePool (updateWake delta w)))"
  using assms by (simp add: updateWake_def afterEmit_def Let_def emit_full)

theorem updateWake_timer_reset_witness:
  "wakeTimer (updateWake (1 / 60)
      (initialWorld\<lparr>boatSpeed := 2, wakeTimer := 0.08,
         wakePool := [\<lparr>mesh_position = \<lparr>vx = 0, vy = 0.02, vz = 0\<rparr>, mesh_visible = True,
          mesh_scale = 0.6, mesh_opacity = 0.5, age = 0, alive = True\<rparr>]\<rparr>)) = 0 \<and>
   wakePool (updateWake (1 / 60)
      (initialWorld\<lparr>boatSpeed := 2, wakeTimer := 0.08,
         wakePool := [\<lparr>mesh_position = \<lparr>vx = 0, vy = 0.02, vz = 0\<rparr>, mesh_visible = True,
          mesh_scale = 0.6, mesh_opacity = 0.5, age = 0, alive = True\<rparr>]\<rparr>)) =
     map (ageSlot (1 / 60)) [\<lparr>mesh_position = \<lparr>vx = 0, vy = 0.02, vz = 0\<rparr>, mesh_visible = True,
          mesh_scale = 0.6, mesh_opacity = 0.5, age = 0, alive = True\<rparr>]"
  using updateWake_timer_reset [of "initialWorld\<lparr>boatSpeed := 2, wakeTimer := 0.08,
         wakePool := [\<lparr>mesh_position = \<lparr>vx = 0, vy = 0.02, vz = 0\<rparr>, mesh_visible = True,
          mesh_scale = 0.6, mesh_opacity = 0.5, age = 0, alive = True\<rparr>]\<rparr>" "1 / 60" 0]
  by simp

section \<open>Proximity\<close>

lemma scanStep_None: "scanStep bp None x = Some (x, islandDist bp x)"
  by (simp add: scanStep_def)

lemma scanStep_Some:
  "scanStep bp (Some (n, nd)) x =
     (if islandDist bp x < nd then Some (x, islandDist bp x) else Some (n, nd))"
  by (simp add: scanStep_def Let_def)

lemma scan_keep:
  "\<forall>y\<in>set ys. d \<le> islandDist bp y \<Longrightarrow> foldl (scanStep bp) (Some (a, d)) ys = Some (a, d)"
  by (induction ys) (simp_all add: scanStep_Some)

lemma scanStep_cases:
  "scanStep bp acc x = Some (x, islandDist bp x) \<or> (scanStep bp acc x = acc \<and> acc \<noteq> None)"
  by (cases acc) (auto simp add: scanStep_None scanStep_Some)

lemma scan_prefix:
  "nearestIsland bp xs = None \<or> (\<exists>n\<in>set xs. nearestIsland bp xs = Some (n, islandDist bp n))"
  unfolding nearestIsland_def
proof (induction xs rule: rev_induct)
  case Nil
  then show ?case by simp
next
  case (snoc x xs)
  then show ?case
    using scanStep_cases [of bp "foldl (scanStep bp) None xs" x] by auto
qed

text \<open>
  C7. The scan returns the first island that attains the minimum distance: if an island is
  strictly nearer than every island before it and at least as near as every island after it,
  it is the nearest found, also when later islands are exactly as near.
\<close>

theorem nearestIsland_first_minimum:
  assumes "\<forall>x\<in>set xs. islandDist bp a < islandDist bp x"
    and "\<forall>y\<in>set ys. islandDist bp a \<le> islandDist bp y"
  shows "nearestIsland bp (xs @ a # ys) = Some (a, islandDist bp a)"
proof -
  have "scanStep bp (nearestIsland bp xs) a = Some (a, islandDist bp a)"
    using scan_prefix [of bp xs] assms(1) by (auto simp add: scanStep_None scanStep_Some)
  then show ?thesis
    using scan_keep [OF assms(2)] by (simp add: nearestIsland_def)
qed

theorem nearestIsland_first_minimum_witness:
  "islandDist \<lparr>vx = - 15, vy = 0.35, vz = 9\<rparr> tropical_0 =
     islandDist \<lparr>vx = - 15, vy = 0.35, vz = 9\<rparr> arctic_2 \<and>
   nearestIsland \<lparr>vx = - 15, vy = 0.35, vz = 9\<rparr> islands =
     Some (tropical_0, islandDist \<lparr>vx = - 15, vy = 0.35, vz = 9\<rparr> tropical_0)"
proof -
  have "nearestIsland \<lparr>vx = - 15, vy = 0.35, vz = 9\<rparr> ([] @ tropical_0 # [desert_1, arctic_2, tropical_3]) =
     Some (tropical_0, islandDist \<lparr>vx = - 15, vy = 0.35, vz = 9\<rparr> tropical_0)"
    by (rule nearestIsland_first_minimum)
      (simp_all add: isl islandDist_def hypot_le_iff)
  moreover have "islandDist \<lparr>vx = - 15, vy = 0.35, vz = 9\<rparr> tropical_0 =
     islandDist \<lparr>vx = - 15, vy = 0.35, vz = 9\<rparr> arctic_2"
    by (simp add: isl islandDist_def hypot_def)
  ultimately show ?thesis by (simp add: islands_def)
qed

lemma scan_min:
  "isls \<noteq> [] \<Longrightarrow> \<exists>n\<in>set isls. nearestIsland bp isls = Some (n, islandDist bp n) \<and>
      islandDist bp n = Min (islandDist bp ` set isls)"
  unfolding nearestIsland_def
proof (induction isls rule: rev_induct)
  case Nil
  then show ?case by simp
next
  case (snoc x xs)
  show ?case
  proof (cases "xs = []")
    case True
    then show ?thesis by (simp add: scanStep_None)
  next
    case False
    with snoc obtain n where n: "n \<in> set xs"
      "foldl (scanStep bp) None xs = Some (n, islandDist bp n)"
      "islandDist bp n = Min (islandDist bp ` set xs)" by blast
    have m: "Min (islandDist bp ` set (xs @ [x])) = min (islandDist bp x) (islandDist bp n)"
      using False n(3) by simp
    show ?thesis
    proof (cases "islandDist bp x < islandDist bp n")
      case True
      then show ?thesis using n m by (simp add: scanStep_Some)
    next
      case False
      then show ?thesis using n m by (auto simp add: scanStep_Some min_def)
    qed
  qed
qed

text \<open>
  C4. For a nonempty registry the scan finds an island n at the minimum distance over all
  islands; after updateProximityUI the active island is set (to n) exactly when that minimum
  is strictly below radius n + 4. At a minimum of exactly radius n + 4 the flag is cleared and
  the speech panel is asked to hide.
\<close>

theorem updateProximityUI_active_iff:
  assumes "isls \<noteq> []"
  shows "\<exists>n\<in>set isls.
     nearestIsland (boat_position w) isls = Some (n, Min (islandDist (boat_position w) ` set isls)) \<and>
     islandDist (boat_position w) n = Min (islandDist (boat_position w) ` set isls) \<and>
     (activeIsland (updateProximityUI isls w) \<noteq> None \<longleftrightarrow>
        Min (islandDist (boat_position w) ` set isls) < radius n + 4) \<and>
     (activeIsland (updateProximityUI isls w) \<noteq> None \<longrightarrow>
        activeIsland (updateProximityUI isls w) = Some n) \<and>
     (Min (islandDist (boat_position w) ` set isls) = radius n + 4 \<longrightarrow>
        activeIsland (updateProximityUI isls w) = None \<and>
        updateProximityUI isls w = showSpeech None (w\<lparr>activeIsland := None\<rparr>) \<and>
        (speechEls w \<longrightarrow> speech_display (updateProximityUI isls w) = ''none''))"
proof -
  from scan_min [OF assms, of "boat_position w"] obtain n where n: "n \<in> set isls"
    "nearestIsland (boat_position w) isls = Some (n, islandDist (boat_position w) n)"
    "islandDist (boat_position w) n = Min (islandDist (boat_position w) ` set isls)" by blast
  have "activeIsland (updateProximityUI isls w) =
          (if islandDist (boat_position w) n < radius n + 4 then Some n else None)"
    using n(2) by (simp add: updateProximityUI_def showSpeech_def Let_def)
  moreover have "islandDist (boat_position w) n = radius n + 4 \<longrightarrow>
      updateProximityUI isls w = showSpeech None (w\<lparr>activeIsland := None\<rparr>)"
    using n(2) by (simp add: updateProximityUI_def Let_def)
  ultimately show ?thesis
    using n by (intro bexI [of _ n]) (auto simp add: showSpeech_def)
qed

theorem updateProximityUI_active_iff_witness:
  "activeIsland (updateProximityUI islands initialWorld) = None"
proof -
  have far: "\<not> islandDist (boat_position initialWorld) a < radius n + 4"
    if "a \<in> set islands" "n \<in> set islands" for a n
    using that by (auto simp add: islands_def isl initialWorld_def islandDist_def hypot_less_iff)
  have ne: "islands \<noteq> []" by (simp add: islands_def)
  from updateProximityUI_active_iff [OF ne, of initialWorld] obtain n where n: "n \<in> set islands"
    "(activeIsland (updateProximityUI islands initialWorld) \<noteq> None) =
       (Min (islandDist (boat_position initialWorld) ` set islands) < radius n + 4)" by blast
  have "\<not> Min (islandDist (boat_position initialWorld) ` set islands) < radius n + 4"
    using far n(1) ne by (simp add: Min_less_iff)
  with n(2) show ?thesis by simp
qed

section \<open>Collision resolution\<close>

lemma collide_hit_dist:
  assumes "islandDist p a < radius a + boatRadius" and "islandDist p a \<noteq> 0"
  shows "islandDist (fst (collide (p, s) a)) a = radius a + boatRadius"
proof -
  define d where "d = islandDist p a"
  define m where "m = radius a + boatRadius"
  have pos: "0 < d" "0 < m"
    using assms hypot_nonneg [of "vx p - vx (position a)" "vz p - vz (position a)"]
    by (simp_all add: d_def m_def islandDist_def)
  have "islandDist (fst (collide (p, s) a)) a =
      hypot ((vx p - vx (position a)) * (m / d)) ((vz p - vz (position a)) * (m / d))"
    using collide_hit(2,3) [OF assms] by (simp add: islandDist_def d_def m_def)
  also have "\<dots> = d * \<bar>m / d\<bar>"
    by (simp only: hypot_scale) (simp add: d_def islandDist_def)
  also have "\<dots> = m" using pos by simp
  finally show ?thesis by (simp add: m_def)
qed

lemma collide_hit_dist_le:
  assumes "islandDist p a < radius a + boatRadius"
  shows "islandDist (fst (collide (p, s) a)) a \<le> radius a + boatRadius"
proof (cases "islandDist p a = 0")
  case True
  have "islandDist (fst (collide (p, s) a)) a = 0"
    using collide_hit(4,5) [OF assms True] by (simp add: islandDist_def hypot_def)
  moreover have "0 \<le> islandDist p a" by (simp add: islandDist_def hypot_nonneg)
  ultimately show ?thesis using assms by linarith
next
  case False
  then show ?thesis using collide_hit_dist [OF assms] by simp
qed

lemma collide_hit_other:
  assumes "islandDist p a < radius a + boatRadius" and "apart a b"
  shows "clearOf (fst (collide (p, s) a)) b"
  using collide_hit_dist_le [OF assms(1), of s] assms(2)
    islandDist_triangle [of a b "fst (collide (p, s) a)"]
  by (simp add: clearOf_def apart_def)

lemma resolve_invariant:
  assumes sep: "\<forall>a\<in>set isls. \<forall>b\<in>set isls. a \<noteq> b \<longrightarrow> apart a b"
    and off: "\<forall>a\<in>set isls. islandDist p a \<noteq> 0"
    and sub: "set xs \<subseteq> set isls"
  shows "(foldl collide (p, s) xs = (p, s) \<and> (\<forall>j\<in>set xs. clearOf p j)) \<or>
         ((\<forall>j\<in>set isls. clearOf (fst (foldl collide (p, s) xs)) j) \<and>
          (\<exists>k\<in>set xs. islandDist p k < radius k + boatRadius \<and>
             foldl collide (p, s) xs = collide (p, s) k))"
  using sub
proof (induction xs rule: rev_induct)
  case Nil
  then show ?case by simp
next
  case (snoc x xs)
  then have x: "x \<in> set isls" and sub': "set xs \<subseteq> set isls" by simp_all
  from snoc.IH [OF sub'] show ?case
  proof
    assume same: "foldl collide (p, s) xs = (p, s) \<and> (\<forall>j\<in>set xs. clearOf p j)"
    then have f: "foldl collide (p, s) (xs @ [x]) = collide (p, s) x" by simp
    show ?thesis
    proof (cases "islandDist p x < radius x + boatRadius")
      case False
      then have "collide (p, s) x = (p, s)" by (rule collide_miss)
      moreover have "clearOf p x" using False by (simp add: clearOf_def)
      ultimately have "foldl collide (p, s) (xs @ [x]) = (p, s) \<and> (\<forall>j\<in>set (xs @ [x]). clearOf p j)"
        using same f by simp
      then show ?thesis by (rule disjI1)
    next
      case True
      note hit = this
      have nz: "islandDist p x \<noteq> 0" using off x by blast
      have on: "islandDist (fst (collide (p, s) x)) x = radius x + boatRadius"
        using hit nz by (rule collide_hit_dist)
      have "clearOf (fst (collide (p, s) x)) j" if "j \<in> set isls" for j
      proof (cases "j = x")
        case True
        then show ?thesis using on by (simp add: clearOf_def)
      next
        case False
        have "x \<noteq> j \<longrightarrow> apart x j"
          by (rule bspec [OF bspec [OF sep x] that])
        with False have "apart x j" by simp
        with hit show ?thesis by (rule collide_hit_other)
      qed
      then have c: "\<forall>j\<in>set isls. clearOf (fst (foldl collide (p, s) (xs @ [x]))) j"
        unfolding f by blast
      have "\<exists>k\<in>set (xs @ [x]). islandDist p k < radius k + boatRadius \<and>
             foldl collide (p, s) (xs @ [x]) = collide (p, s) k"
        unfolding f using hit by (intro bexI [of _ x]) simp_all
      with c show ?thesis by (intro disjI2 conjI)
    qed
  next
    assume moved: "(\<forall>j\<in>set isls. clearOf (fst (foldl collide (p, s) xs)) j) \<and>
          (\<exists>k\<in>set xs. islandDist p k < radius k + boatRadius \<and>
             foldl collide (p, s) xs = collide (p, s) k)"
    then have "clearOf (fst (foldl collide (p, s) xs)) x" using x by blast
    then have "collide (foldl collide (p, s) xs) x = foldl collide (p, s) xs"
      using collide_miss [of "fst (foldl collide (p, s) xs)" x "snd (foldl collide (p, s) xs)"]
      by (simp add: clearOf_def)
    then have g: "foldl collide (p, s) (xs @ [x]) = foldl collide (p, s) xs" by simp
    from moved obtain k where k: "k \<in> set xs" "islandDist p k < radius k + boatRadius"
      "foldl collide (p, s) xs = collide (p, s) k" by blast
    have "\<exists>k\<in>set (xs @ [x]). islandDist p k < radius k + boatRadius \<and>
             foldl collide (p, s) (xs @ [x]) = collide (p, s) k"
      unfolding g using k by (intro bexI [of _ k]) simp_all
    moreover have "\<forall>j\<in>set isls. clearOf (fst (foldl collide (p, s) (xs @ [x]))) j"
      unfolding g using moved by (rule conjunct1)
    ultimately show ?thesis by (intro disjI2 conjI)
  qed
qed

lemma hit_unique:
  assumes a: "islandDist p a < radius a + boatRadius"
    and k: "islandDist p k < radius k + boatRadius"
    and sep: "a \<noteq> k \<longrightarrow> apart a k"
  shows "k = a"
proof (rule ccontr)
  assume "k \<noteq> a"
  then have "(radius a + boatRadius) + (radius k + boatRadius) \<le> islandDist (position a) k"
    using sep by (simp add: apart_def)
  moreover have "islandDist (position a) k \<le> islandDist p a + islandDist p k"
    by (rule islandDist_triangle)
  ultimately show False using a k by linarith
qed

lemma clampBounds_clear:
  assumes "clearOf q a" and "insideBounds ws a"
  shows "clearOf (clampBounds ws q) a"
proof (cases "radius a + boatRadius \<le> 0")
  case True
  moreover have "0 \<le> islandDist (clampBounds ws q) a"
    by (simp add: islandDist_def hypot_nonneg)
  ultimately show ?thesis by (simp add: clearOf_def)
next
  case False
  define B where "B = ws * 0.45"
  define m where "m = radius a + boatRadius"
  have B: "\<bar>vx (position a)\<bar> + m \<le> B" "\<bar>vz (position a)\<bar> + m \<le> B"
    using assms(2) by (simp_all add: insideBounds_def B_def m_def)
  have B0: "0 \<le> B" using B(1) False by (simp add: m_def)
  have x': "vx (clampBounds ws q) = clamp (vx q) (- B) B"
    and z': "vz (clampBounds ws q) = clamp (vz q) (- B) B"
    by (simp_all add: clampBounds_def B_def Let_def)
  consider "vx q < - B" | "B < vx q" | "vz q < - B" | "B < vz q"
    | "- B \<le> vx q \<and> vx q \<le> B \<and> - B \<le> vz q \<and> vz q \<le> B" by linarith
  then have "m \<le> islandDist (clampBounds ws q) a"
  proof cases
    case 1
    then have "vx (clampBounds ws q) = - B" using B0 by (simp add: x' clamp_def)
    then have "m \<le> \<bar>vx (clampBounds ws q) - vx (position a)\<bar>" using B by simp
    then show ?thesis
      using abs_le_hypot1 [of "vx (clampBounds ws q) - vx (position a)" "vz (clampBounds ws q) - vz (position a)"]
      by (simp add: islandDist_def)
  next
    case 2
    then have "vx (clampBounds ws q) = B" using B0 by (simp add: x' clamp_def)
    then have "m \<le> \<bar>vx (clampBounds ws q) - vx (position a)\<bar>" using B by simp
    then show ?thesis
      using abs_le_hypot1 [of "vx (clampBounds ws q) - vx (position a)" "vz (clampBounds ws q) - vz (position a)"]
      by (simp add: islandDist_def)
  next
    case 3
    then have "vz (clampBounds ws q) = - B" using B0 by (simp add: z' clamp_def)
    then have "m \<le> \<bar>vz (clampBounds ws q) - vz (position a)\<bar>" using B by simp
    then show ?thesis
      using abs_le_hypot2 [of "vz (clampBounds ws q) - vz (position a)" "vx (clampBounds ws q) - vx (position a)"]
      by (simp add: islandDist_def)
  next
    case 4
    then have "vz (clampBounds ws q) = B" using B0 by (simp add: z' clamp_def)
    then have "m \<le> \<bar>vz (clampBounds ws q) - vz (position a)\<bar>" using B by simp
    then show ?thesis
      using abs_le_hypot2 [of "vz (clampBounds ws q) - vz (position a)" "vx (clampBounds ws q) - vx (position a)"]
      by (simp add: islandDist_def)
  next
    case 5
    then have "vx (clampBounds ws q) = vx q" "vz (clampBounds ws q) = vz q"
      by (simp_all add: x' z' clamp_def)
    then show ?thesis using assms(1) by (simp add: islandDist_def clearOf_def m_def)
  qed
  then show ?thesis by (simp add: clearOf_def m_def)
qed

lemma clampBounds_on_circle:
  assumes "islandDist q a = radius a + boatRadius" and "insideBounds ws a"
  shows "vx (clampBounds ws q) = vx q \<and> vz (clampBounds ws q) = vz q"
proof -
  define B where "B = ws * 0.45"
  define m where "m = radius a + boatRadius"
  have B: "\<bar>vx (position a)\<bar> + m \<le> B" "\<bar>vz (position a)\<bar> + m \<le> B"
    using assms(2) by (simp_all add: insideBounds_def B_def m_def)
  have "\<bar>vx q - vx (position a)\<bar> \<le> m"
    using abs_le_hypot1 [of "vx q - vx (position a)" "vz q - vz (position a)"] assms(1)
    by (simp add: islandDist_def m_def)
  moreover have "\<bar>vz q - vz (position a)\<bar> \<le> m"
    using abs_le_hypot2 [of "vz q - vz (position a)" "vx q - vx (position a)"] assms(1)
    by (simp add: islandDist_def m_def)
  ultimately have "- B \<le> vx q" "vx q \<le> B" "- B \<le> vz q" "vz q \<le> B"
    using B by linarith+
  then show ?thesis by (simp add: clampBounds_def clamp_def B_def Let_def)
qed

lemma islandDist_cong:
  "vx p = vx q \<Longrightarrow> vz p = vz q \<Longrightarrow> islandDist p a = islandDist q a"
  by (simp add: islandDist_def)

lemma collide_miss': "\<not> islandDist (fst st) a < radius a + boatRadius \<Longrightarrow> collide st a = st"
  using collide_miss [of "fst st" a "snd st"] by simp

lemma collide_hit':
  assumes "islandDist (fst st) a < radius a + boatRadius"
  shows "islandDist (fst st) a \<noteq> 0 \<Longrightarrow> vx (fst (collide st a)) =
      vx (position a) + (vx (fst st) - vx (position a)) / islandDist (fst st) a * (radius a + boatRadius)"
    and "islandDist (fst st) a \<noteq> 0 \<Longrightarrow> vz (fst (collide st a)) =
      vz (position a) + (vz (fst st) - vz (position a)) / islandDist (fst st) a * (radius a + boatRadius)"
    and "islandDist (fst st) a = 0 \<Longrightarrow> vx (fst (collide st a)) = vx (position a)"
    and "islandDist (fst st) a = 0 \<Longrightarrow> vz (fst (collide st a)) = vz (position a)"
  using collide_hit(2-5) [OF assms [unfolded prod.collapse], of "snd st"] assms by simp_all

text \<open>
  C1 (amended). Distances are those of the exact real arithmetic of this model; the program
  computes the push-out in binary64, where the boat can be left a few units in the last place
  inside the circle, so "at least" and "exactly" below hold up to that rounding.

  With the modal closed, for either water size:
  (1) An iteration of the collision loop that finds the position strictly inside an island's
  exclusion circle sets the speed to 0 and, unless the position is the island's centre, moves
  it to exactly radius + boatRadius from the centre along the ray through the old position.
  (2) If the tentative position is strictly inside the circle of any island of the registry,
  the speed after updateBoat is 0.
  (3) If moreover the circles of the registry are pairwise non-overlapping and lie inside
  the world square, and the tentative position is no island's centre, then the committed
  position is at least radius + boatRadius from every island, and for an island whose circle
  the tentative position was strictly inside it is the push-out of (1) from that island.
\<close>

theorem updateBoat_collision_clear:
  assumes "\<not> modalOpen w"
  shows "(islandDist (fst st) b < radius b + boatRadius \<longrightarrow>
            snd (collide st b) = 0 \<and>
            (islandDist (fst st) b \<noteq> 0 \<longrightarrow>
               islandDist (fst (collide st b)) b = radius b + boatRadius \<and>
               vx (fst (collide st b)) =
                 vx (position b) +
                 (vx (fst st) - vx (position b)) / islandDist (fst st) b * (radius b + boatRadius) \<and>
               vz (fst (collide st b)) =
                 vz (position b) +
                 (vz (fst st) - vz (position b)) / islandDist (fst st) b * (radius b + boatRadius))) \<and>
         (\<forall>a\<in>set isls. islandDist (nextPosOf delta w) a < radius a + boatRadius \<longrightarrow>
            boatSpeed (updateBoat ws delta elapsed isls w) = 0) \<and>
         ((\<forall>a\<in>set isls. \<forall>b\<in>set isls. a \<noteq> b \<longrightarrow> apart a b) \<and>
          (\<forall>a\<in>set isls. insideBounds ws a) \<and>
          (\<forall>a\<in>set isls. islandDist (nextPosOf delta w) a \<noteq> 0) \<longrightarrow>
            (\<forall>a\<in>set isls.
               radius a + boatRadius \<le> islandDist (boat_position (updateBoat ws delta elapsed isls w)) a) \<and>
            (\<forall>a\<in>set isls. islandDist (nextPosOf delta w) a < radius a + boatRadius \<longrightarrow>
               islandDist (boat_position (updateBoat ws delta elapsed isls w)) a = radius a + boatRadius \<and>
               vx (boat_position (updateBoat ws delta elapsed isls w)) =
                 vx (position a) +
                 (vx (nextPosOf delta w) - vx (position a)) / islandDist (nextPosOf delta w) a *
                   (radius a + boatRadius) \<and>
               vz (boat_position (updateBoat ws delta elapsed isls w)) =
                 vz (position a) +
                 (vz (nextPosOf delta w) - vz (position a)) / islandDist (nextPosOf delta w) a *
                   (radius a + boatRadius)))"
proof -
  define p where "p = nextPosOf delta w"
  define s where "s = throttle delta (keys w) (boatSpeed w)"
  define st0 where "st0 = foldl collide (p, s) isls"
  define w' where "w' = updateBoat ws delta elapsed isls w"
  note ub0 = updateBoat_open [OF assms(1), of ws delta elapsed isls, folded p_def s_def w'_def]
  note ub = ub0 [folded st0_def]
  have step: "snd (collide st b) = 0 \<and>
      (islandDist (fst st) b \<noteq> 0 \<longrightarrow>
         islandDist (fst (collide st b)) b = radius b + boatRadius \<and>
         vx (fst (collide st b)) =
           vx (position b) +
           (vx (fst st) - vx (position b)) / islandDist (fst st) b * (radius b + boatRadius) \<and>
         vz (fst (collide st b)) =
           vz (position b) +
           (vz (fst st) - vz (position b)) / islandDist (fst st) b * (radius b + boatRadius))"
    if h: "islandDist (fst st) b < radius b + boatRadius"
  proof -
    have "snd (collide (fst st, snd st) b) = 0" using h by (rule collide_hit(1))
    moreover have "islandDist (fst (collide (fst st, snd st) b)) b = radius b + boatRadius"
      if "islandDist (fst st) b \<noteq> 0"
      using h that by (rule collide_hit_dist)
    ultimately show ?thesis using collide_hit'(1,2) [OF h] by simp
  qed
  have stop: "boatSpeed w' = 0" if "a \<in> set isls" "islandDist p a < radius a + boatRadius" for a
  proof -
    have "\<exists>a\<in>set isls. islandDist p a < radius a + boatRadius" using that by (rule bexI [rotated])
    then have "snd st0 = 0" unfolding st0_def by (rule resolve_hit_speed)
    then show ?thesis using ub(1) by simp
  qed
  have main: "(\<forall>a\<in>set isls. radius a + boatRadius \<le> islandDist (boat_position w') a) \<and>
      (\<forall>a\<in>set isls. islandDist p a < radius a + boatRadius \<longrightarrow>
         islandDist (boat_position w') a = radius a + boatRadius \<and>
         vx (boat_position w') =
           vx (position a) + (vx p - vx (position a)) / islandDist p a * (radius a + boatRadius) \<and>
         vz (boat_position w') =
           vz (position a) + (vz p - vz (position a)) / islandDist p a * (radius a + boatRadius))"
    if sep: "\<forall>a\<in>set isls. \<forall>b\<in>set isls. a \<noteq> b \<longrightarrow> apart a b"
      and inb: "\<forall>a\<in>set isls. insideBounds ws a"
      and off: "\<forall>a\<in>set isls. islandDist p a \<noteq> 0"
  proof -
    have dist': "islandDist (boat_position w') a = islandDist (clampBounds ws (fst st0)) a" for a
      using ub(2,3) by (rule islandDist_cong)
    have inv: "(st0 = (p, s) \<and> (\<forall>j\<in>set isls. clearOf p j)) \<or>
         ((\<forall>j\<in>set isls. clearOf (fst st0) j) \<and>
          (\<exists>k\<in>set isls. islandDist p k < radius k + boatRadius \<and> st0 = collide (p, s) k))"
      unfolding st0_def using sep off subset_refl by (rule resolve_invariant)
    have clear: "\<forall>j\<in>set isls. clearOf (fst st0) j"
      using inv by auto
    have one: "radius a + boatRadius \<le> islandDist (boat_position w') a" if "a \<in> set isls" for a
    proof -
      have "clearOf (fst st0) a" "insideBounds ws a" using clear inb that by simp_all
      then have "clearOf (clampBounds ws (fst st0)) a" by (rule clampBounds_clear)
      then show ?thesis by (simp add: dist' clearOf_def)
    qed
    have two: "islandDist (boat_position w') a = radius a + boatRadius \<and>
        vx (boat_position w') =
          vx (position a) + (vx p - vx (position a)) / islandDist p a * (radius a + boatRadius) \<and>
        vz (boat_position w') =
          vz (position a) + (vz p - vz (position a)) / islandDist p a * (radius a + boatRadius)"
      if a: "a \<in> set isls" and hit: "islandDist p a < radius a + boatRadius" for a
    proof -
      have "\<not> clearOf p a" using hit by (simp add: clearOf_def)
      with inv a obtain k where k: "k \<in> set isls" "islandDist p k < radius k + boatRadius"
        "st0 = collide (p, s) k" by auto
      have "a \<noteq> k \<longrightarrow> apart a k" by (rule bspec [OF bspec [OF sep a] k(1)])
      with hit k(2) have "k = a" by (rule hit_unique)
      then have st: "st0 = collide (p, s) a" using k(3) by simp
      have nz: "islandDist p a \<noteq> 0" using off a by simp
      have on: "islandDist (fst st0) a = radius a + boatRadius"
        unfolding st using hit nz by (rule collide_hit_dist)
      have "insideBounds ws a" using inb a by simp
      with on have cl: "vx (clampBounds ws (fst st0)) = vx (fst st0) \<and>
          vz (clampBounds ws (fst st0)) = vz (fst st0)"
        by (rule clampBounds_on_circle)
      then have "islandDist (clampBounds ws (fst st0)) a = islandDist (fst st0) a"
        by (intro islandDist_cong) simp_all
      then have "islandDist (boat_position w') a = radius a + boatRadius"
        using on by (simp add: dist')
      moreover have "vx (boat_position w') =
          vx (position a) + (vx p - vx (position a)) / islandDist p a * (radius a + boatRadius)"
        using cl ub(2) collide_hit(2) [OF hit nz, of s] by (simp add: st)
      moreover have "vz (boat_position w') =
          vz (position a) + (vz p - vz (position a)) / islandDist p a * (radius a + boatRadius)"
        using cl ub(3) collide_hit(3) [OF hit nz, of s] by (simp add: st)
      ultimately show ?thesis by simp
    qed
    from one two show ?thesis by simp
  qed
  from step stop main show ?thesis unfolding p_def w'_def by blast
qed

theorem updateBoat_collision_clear_witness:
  "islandDist (boat_position (updateBoat waterSize (1 / 2) 0 islands (cruising 0 (- 6) 12))) arctic_2 =
     radius arctic_2 + boatRadius \<and>
   vx (boat_position (updateBoat waterSize (1 / 2) 0 islands (cruising 0 (- 6) 12))) = - 6 \<and>
   vz (boat_position (updateBoat waterSize (1 / 2) 0 islands (cruising 0 (- 6) 12))) = 16.4 \<and>
   boatSpeed (updateBoat waterSize (1 / 2) 0 islands (cruising 0 (- 6) 12)) = 0 \<and>
   radius tropical_0 + boatRadius \<le>
     islandDist (boat_position (updateBoat waterSize (1 / 2) 0 islands (cruising 0 (- 6) 12))) tropical_0 \<and>
   vz (boat_position (updateBoat waterSizeVariant (1 / 2) 0 islands (cruising 0 (- 6) 12))) = 16.4 \<and>
   boatSpeed (updateBoat waterSize 1 0 islands (cruising 0 (- 6) 12)) = 0"
proof -
  let ?w = "cruising 0 (- 6) 12"
  have p: "nextPosOf (1 / 2) ?w = \<lparr>vx = - 6, vy = 0.35, vz = 18\<rparr>"
    "nextPosOf 1 ?w = \<lparr>vx = - 6, vy = 0.35, vz = 24\<rparr>"
    by (simp_all add: cruising_nextPos)
  have sep: "\<forall>a\<in>set islands. \<forall>b\<in>set islands. a \<noteq> b \<longrightarrow> apart a b"
    unfolding apart_def islandDist_def hypot_ge_iff
    by (simp add: islands_def isl boatRadius_def)
  have inb: "\<forall>a\<in>set islands. insideBounds waterSize a"
    "\<forall>a\<in>set islands. insideBounds waterSizeVariant a"
    by (simp_all add: islands_def isl insideBounds_def waterSize_def waterSizeVariant_def
        boatRadius_def)
  have off: "\<forall>a\<in>set islands. islandDist (nextPosOf (1 / 2) ?w) a \<noteq> 0"
    unfolding islandDist_def hypot_zero_iff by (simp add: p islands_def isl)
  have d: "islandDist (nextPosOf (1 / 2) ?w) arctic_2 = 6"
    by (simp add: p isl islandDist_def hypot_axis)
  have m: "arctic_2 \<in> set islands" "tropical_0 \<in> set islands"
    by (simp_all add: islands_def)
  have hit: "islandDist (nextPosOf (1 / 2) ?w) arctic_2 < radius arctic_2 + boatRadius"
    using d by (simp add: isl boatRadius_def)
  have hit1: "islandDist (nextPosOf 1 ?w) arctic_2 < radius arctic_2 + boatRadius"
    unfolding p hit_iff by (simp add: isl boatRadius_def)
  note t = updateBoat_collision_clear [OF cruising_nextPos(3), where ws = waterSize
      and delta = "1 / 2" and elapsed = 0 and isls = islands and heading1 = 0 and x1 = "- 6"
      and z1 = 12]
  note tv = updateBoat_collision_clear [OF cruising_nextPos(3), where ws = waterSizeVariant
      and delta = "1 / 2" and elapsed = 0 and isls = islands and heading1 = 0 and x1 = "- 6"
      and z1 = 12]
  note t1 = updateBoat_collision_clear [OF cruising_nextPos(3), where ws = waterSize
      and delta = 1 and elapsed = 0 and isls = islands and heading1 = 0 and x1 = "- 6"
      and z1 = 12]
  note c = mp [OF conjunct2 [OF conjunct2 [OF t]] conjI [OF sep conjI [OF inb(1) off]]]
  note cv = mp [OF conjunct2 [OF conjunct2 [OF tv]] conjI [OF sep conjI [OF inb(2) off]]]
  note r = mp [OF bspec [OF conjunct2 [OF c] m(1)] hit]
  note rv = mp [OF bspec [OF conjunct2 [OF cv] m(1)] hit]
  note r0 = bspec [OF conjunct1 [OF c] m(2)]
  note s0 = mp [OF bspec [OF conjunct1 [OF conjunct2 [OF t]] m(1)] hit]
  note s1 = mp [OF bspec [OF conjunct1 [OF conjunct2 [OF t1]] m(1)] hit1]
  show ?thesis
    using r rv r0 s0 s1 unfolding d by (simp add: p arctic_2_def boatRadius_def)
qed

text \<open>
  Without the provisos of (3) the property fails, whatever the arithmetic. On the registry of
  the program, a tentative position on the centre of the third island stays there, because
  normalising the zero vector yields the zero vector. With two overlapping circles the push
  out of the second island lands inside the first. With an island on the edge of the world,
  the bounds clamp moves a boat that is clear of it onto its centre.
\<close>

theorem updateBoat_collision_counterexample:
  "islandDist (boat_position (updateBoat waterSize 1 0 islands (cruising 0 (- 6) 12))) arctic_2
     < radius arctic_2 + boatRadius \<and>
   islandDist (boat_position (updateBoat waterSize (1 / 3) 0 [twin_0, twin_1] (cruising 0 3 (- 4)))) twin_0
     < radius twin_0 + boatRadius \<and>
   islandDist (boat_position (updateBoat waterSize 1 0 [edge_0] (cruising (pi / 2) 102 0))) edge_0
     < radius edge_0 + boatRadius"
proof (intro conjI)
  let ?w = "cruising 0 (- 6) 12"
  let ?p = "\<lparr>vx = - 6, vy = 0.35, vz = 24\<rparr>"
  have p: "nextPosOf 1 ?w = ?p" by (simp add: cruising_nextPos)
  have s: "throttle 1 (keys ?w) (boatSpeed ?w) = 12" by (simp add: cruising_nextPos)
  define st where "st = collide (?p, 12) arctic_2"
  have z: "islandDist ?p arctic_2 = 0"
    by (simp add: isl islandDist_def hypot_zero_iff)
  then have h: "islandDist ?p arctic_2 < radius arctic_2 + boatRadius"
    by (simp add: isl boatRadius_def)
  have st': "vx (fst st) = - 6" "vz (fst st) = 24"
    using collide_hit(4,5) [OF h z, of 12] by (simp_all add: st_def isl)
  have m0: "collide (?p, 12) tropical_0 = (?p, 12)"
    by (rule collide_miss; unfold hit_iff) (simp add: isl boatRadius_def)
  have m1: "collide (?p, 12) desert_1 = (?p, 12)"
    by (rule collide_miss; unfold hit_iff) (simp add: isl boatRadius_def)
  have m3: "collide st tropical_3 = st"
    by (rule collide_miss'; unfold hit_iff) (simp add: isl st' boatRadius_def)
  have f: "foldl collide (nextPosOf 1 ?w, throttle 1 (keys ?w) (boatSpeed ?w)) islands = st"
    unfolding p s islands_def by (simp only: foldl_Cons foldl_Nil m0 m1 m3 st_def [symmetric])
  have "vx (boat_position (updateBoat waterSize 1 0 islands ?w)) = - 6"
    "vz (boat_position (updateBoat waterSize 1 0 islands ?w)) = 24"
    by (simp_all add: updateBoat_open cruising_nextPos(3) f clampBounds_def clamp_def st'
        waterSize_def Let_def)
  then show "islandDist (boat_position (updateBoat waterSize 1 0 islands ?w)) arctic_2
     < radius arctic_2 + boatRadius"
    unfolding hit_iff by (simp add: isl boatRadius_def)
next
  let ?w = "cruising 0 3 (- 4)"
  let ?p = "\<lparr>vx = 3, vy = 0.35, vz = 0\<rparr>"
  have p: "nextPosOf (1 / 3) ?w = ?p" by (simp add: cruising_nextPos)
  have s: "throttle (1 / 3) (keys ?w) (boatSpeed ?w) = 12" by (simp add: cruising_nextPos)
  define st1 where "st1 = collide (?p, 12) twin_0"
  define st2 where "st2 = collide st1 twin_1"
  have d1: "islandDist ?p twin_0 = 3"
    by (simp add: twin_0_def islandDist_def hypot_axis)
  then have h1: "islandDist ?p twin_0 < radius twin_0 + boatRadius"
    by (simp add: twin_0_def boatRadius_def)
  have st1': "vx (fst st1) = 5" "vz (fst st1) = 0"
    using collide_hit(2,3) [OF h1, of 12] d1 by (simp_all add: st1_def twin_0_def boatRadius_def)
  have d2: "islandDist (fst st1) twin_1 = 1"
    by (simp add: twin_1_def islandDist_def st1' hypot_axis)
  then have h2: "islandDist (fst st1) twin_1 < radius twin_1 + boatRadius"
    by (simp add: twin_1_def boatRadius_def)
  have st2': "vx (fst st2) = 1" "vz (fst st2) = 0"
    using collide_hit'(1,2) [OF h2] d2
    by (simp_all add: st2_def st1' twin_1_def boatRadius_def)
  have f: "foldl collide (nextPosOf (1 / 3) ?w, throttle (1 / 3) (keys ?w) (boatSpeed ?w)) [twin_0, twin_1] = st2"
    by (simp add: p s st2_def st1_def)
  have nm: "\<not> modalOpen ?w" by (rule cruising_nextPos(3))
  note ub = updateBoat_open [OF nm, of waterSize "1 / 3" 0 "[twin_0, twin_1]", unfolded f]
  have "vx (boat_position (updateBoat waterSize (1 / 3) 0 [twin_0, twin_1] ?w)) = 1"
    "vz (boat_position (updateBoat waterSize (1 / 3) 0 [twin_0, twin_1] ?w)) = 0"
    using ub(2,3) by (simp_all add: clampBounds_def clamp_def st2' waterSize_def Let_def)
  then show "islandDist (boat_position (updateBoat waterSize (1 / 3) 0 [twin_0, twin_1] ?w)) twin_0
     < radius twin_0 + boatRadius"
    unfolding hit_iff by (simp add: twin_0_def boatRadius_def)
next
  let ?w = "cruising (pi / 2) 102 0"
  let ?p = "\<lparr>vx = 114, vy = 0.35, vz = 0\<rparr>"
  have p: "nextPosOf 1 ?w = ?p" by (simp add: cruising_nextPos)
  have s: "throttle 1 (keys ?w) (boatSpeed ?w) = 12" by (simp add: cruising_nextPos)
  have "collide (?p, 12) edge_0 = (?p, 12)"
    by (rule collide_miss; unfold hit_iff) (simp add: edge_0_def boatRadius_def)
  then have f: "foldl collide (nextPosOf 1 ?w, throttle 1 (keys ?w) (boatSpeed ?w)) [edge_0] = (?p, 12)"
    by (simp add: p s)
  have nm: "\<not> modalOpen ?w" by (rule cruising_nextPos(3))
  note ub = updateBoat_open [OF nm, of waterSize 1 0 "[edge_0]", unfolded f]
  have "vx (boat_position (updateBoat waterSize 1 0 [edge_0] ?w)) = 108"
    "vz (boat_position (updateBoat waterSize 1 0 [edge_0] ?w)) = 0"
    using ub(2,3) by (simp_all add: clampBounds_def clamp_def waterSize_def Let_def)
  then show "islandDist (boat_position (updateBoat waterSize 1 0 [edge_0] ?w)) edge_0
     < radius edge_0 + boatRadius"
    unfolding hit_iff by (simp add: edge_0_def boatRadius_def)
qed

end
